theory Spec2Isabelle
  imports Main "HOL-Library.Word"
begin

text \<open>
  A model of git-annex-remote-b2, the external special remote that stores the content
  of git-annex keys in a Backblaze B2 bucket. The adapter (\<^verbatim>\<open>B2Ext\<close> and its
  methods) follows the revision of \<^verbatim>\<open>main.go\<close> that keeps the last result of
  \<^verbatim>\<open>ListFileNames\<close> in \<^verbatim>\<open>lastList\<close>; the progress reader follows
  \<^verbatim>\<open>progress.go\<close>. The object store client, the control channel, the local file
  system and the clock are outside the program: their answers are inputs of the model.
\<close>

section \<open>Values shared by the adapter and its collaborators\<close>

text \<open>
  A Go \<^verbatim>\<open>error\<close> value. \<open>Error m\<close> is \<^verbatim>\<open>errors.New(m)\<close> or an error handed
  back by a collaborator, \<open>ErrUnsupportedRequest\<close> is the sentinel of the protocol
  library, and \<open>Errorf p e\<close> is \<^verbatim>\<open>fmt.Errorf(p + "%v", e)\<close>: the message \<open>p\<close>
  followed by the message of \<open>e\<close>.
\<close>

datatype error = Error string | ErrUnsupportedRequest | Errorf string error

text \<open>
  What an operation of the adapter does: it returns (\<open>Ok\<close>), it returns a non-nil
  error (\<open>Failure\<close>), or it calls a method of the nil bucket pointer, which ends the
  process with a runtime panic (\<open>Panic\<close>).
\<close>

datatype 'a result = Ok 'a | Failure error | Panic

type_synonym byte = "8 word"

subsection \<open>encoding/hex\<close>

definition fromHexChar :: "char \<Rightarrow> nat option" where
  "fromHexChar c =
     (let k = (of_char c :: nat) in
      if 48 \<le> k \<and> k \<le> 57 then Some (k - 48)
      else if 97 \<le> k \<and> k \<le> 102 then Some (k - 97 + 10)
      else if 65 \<le> k \<and> k \<le> 70 then Some (k - 65 + 10)
      else None)"

text \<open>
  \<^verbatim>\<open>hex.DecodeString\<close>: \<open>None\<close> stands for a non-nil error (odd length or a byte
  that is no hexadecimal digit); the caller reads the bytes only when the error is nil.
\<close>

fun hex_DecodeString :: "string \<Rightarrow> byte list option" where
  "hex_DecodeString [] = Some []"
| "hex_DecodeString [p] = None"
| "hex_DecodeString (p # q # rest) =
     (case (fromHexChar p, fromHexChar q) of
        (Some a, Some b) \<Rightarrow>
          (case hex_DecodeString rest of
             None \<Rightarrow> None
           | Some bs \<Rightarrow> Some (word_of_nat (a * 16 + b) # bs))
      | _ \<Rightarrow> None)"

definition hextable :: string where
  "hextable = ''0123456789abcdef''"

fun hex_EncodeToString :: "byte list \<Rightarrow> string" where
  "hex_EncodeToString [] = []"
| "hex_EncodeToString (v # src) =
     (hextable ! (unat v div 16)) # (hextable ! (unat v mod 16)) # hex_EncodeToString src"

subsection \<open>time\<close>

text \<open>
  An instant is a count of nanoseconds relative to the Unix epoch; a Duration is a
  64-bit count of nanoseconds. \<open>zeroTime\<close> is \<^verbatim>\<open>time.Time{}\<close>, January 1 of year 1,
  62135596800 seconds before the epoch. \<^verbatim>\<open>Time.Sub\<close> saturates at the largest and
  smallest Duration.
\<close>

definition Second :: int where
  "Second = 1000000000"

definition maxDuration :: int where
  "maxDuration = 2 ^ 63 - 1"

definition minDuration :: int where
  "minDuration = - (2 ^ 63)"

definition zeroTime :: int where
  "zeroTime = - (62135596800 * 1000000000)"

definition time_Sub :: "int \<Rightarrow> int \<Rightarrow> int" where
  "time_Sub t u =
     (let d = t - u in
      if d > maxDuration then maxDuration
      else if d < minDuration then minDuration
      else d)"

subsection \<open>strings\<close>

definition HasSuffix :: "string \<Rightarrow> string \<Rightarrow> bool" where
  "HasSuffix s suffix =
     (length s \<ge> length suffix \<and> drop (length s - length suffix) s = suffix)"

section \<open>The collaborators\<close>

record Credentials =
  AccountID :: string
  ApplicationKey :: string

datatype B2 = B2 Credentials

datatype BucketType = AllPublic | AllPrivate

datatype Bucket = Bucket string

text \<open>A file of the object store, as a listing or \<^verbatim>\<open>GetFileInfo\<close> describes it.\<close>

record File =
  ID :: string
  Name :: string
  ContentSha1 :: string

text \<open>
  An opened local file: the bytes \<^verbatim>\<open>io.Copy\<close> reads from it before it stops, the
  error it stops with (\<open>None\<close> at end of file), and the error of \<^verbatim>\<open>Seek(0, 0)\<close>.
\<close>

record OSFile =
  contents :: "byte list"
  readError :: "error option"
  seekError :: "error option"

text \<open>
  How the outside answers during one operation of the adapter: the control channel
  (\<open>GetConfig\<close>), the process environment, the object store client, the local file
  system, the SHA-1 digest and the clock. An operation makes each of these calls at most
  once per argument, so a function from the arguments to the answer describes every
  possible run of one operation; a sequence of operations takes one such record per
  operation. The clock is read twice by a lookup: \<open>now_since\<close> is the reading of
  \<^verbatim>\<open>time.Since\<close>, \<open>now_set\<close> the later reading of \<^verbatim>\<open>time.Now()\<close>.
  \<open>OpenBucket\<close> is the method \<^verbatim>\<open>b2.Bucket(name)\<close>, which answers nil when no
  bucket has that name; \<open>os_Open\<close> is \<^verbatim>\<open>os.Open\<close> and \<open>sha1_Sum\<close> the SHA-1
  digest of the bytes written to the hash. \<open>GetConfig\<close> answers a value and an error,
  as the Go function does. \<open>gosyntax\<close> is what the verb \<^verbatim>\<open>%#v\<close> of the Go
  library prints for a string (its Go-syntax quotation, with the library's escapes);
  the model takes it as a function it does not look into.
\<close>

record Env =
  GetConfig :: "string \<Rightarrow> string \<times> error option"
  Getenv :: "string \<Rightarrow> string"
  NewB2 :: "Credentials \<Rightarrow> error + B2"
  OpenBucket :: "B2 \<Rightarrow> string \<Rightarrow> error + Bucket option"
  CreateBucket :: "B2 \<Rightarrow> string \<Rightarrow> BucketType \<Rightarrow> error + Bucket"
  ListFileNames :: "Bucket \<Rightarrow> string \<Rightarrow> nat \<Rightarrow> error + File list"
  GetFileInfo :: "Bucket \<Rightarrow> string \<Rightarrow> error + File option"
  DeleteFileVersion :: "Bucket \<Rightarrow> string \<Rightarrow> string \<Rightarrow> error option"
  UploadHashedFile :: "Bucket \<Rightarrow> string \<Rightarrow> string \<Rightarrow> int \<Rightarrow> error option"
  os_Open :: "string \<Rightarrow> error + OSFile"
  sha1_Sum :: "byte list \<Rightarrow> byte list"
  gosyntax :: "string \<Rightarrow> string"
  now_since :: int
  now_set :: int

text \<open>
  The calls an operation makes on the control channel and on the object store, in the
  order it makes them. The list is an observation added to the model; the code keeps
  no such log.
\<close>

datatype call =
    GetConfigC string
  | NewB2C Credentials
  | BucketC string
  | CreateBucketC string BucketType
  | ListFileNamesC string nat
  | GetFileInfoC string
  | DeleteFileVersionC string string
  | UploadHashedFileC string string int

section \<open>The adapter\<close>

text \<open>
  The fields \<^verbatim>\<open>file\<close> and \<^verbatim>\<open>id\<close> of \<^verbatim>\<open>lastList\<close> are \<open>file'\<close> and \<open>id'\<close>
  here, and the method \<^verbatim>\<open>setup\<close> is \<open>setup'\<close>. A nil bucket pointer is \<open>None\<close>.
\<close>

record lastList_t =
  setAt :: int
  file' :: string
  found :: bool
  id' :: string

record B2Ext =
  bucket :: "Bucket option"
  prefix :: string
  lastList :: lastList_t

definition time_Since :: "Env \<Rightarrow> int \<Rightarrow> int" where
  "time_Since env t = time_Sub (now_since env) t"

definition listFileCached ::
  "Env \<Rightarrow> string \<Rightarrow> B2Ext \<Rightarrow> (bool \<times> string) result \<times> B2Ext \<times> call list" where
  "listFileCached env fileName be =
     (if file' (lastList be) \<noteq> fileName \<or> time_Since env (setAt (lastList be)) > Second * 15
      then
        (case bucket be of
           None \<Rightarrow> (Panic, be, [])
         | Some b \<Rightarrow>
             (case ListFileNames env b fileName 1 of
                Inl err \<Rightarrow> (Failure err, be, [ListFileNamesC fileName 1])
              | Inr files \<Rightarrow>
                  (let slot =
                     (case files of
                        [] \<Rightarrow> \<lparr>setAt = now_set env, file' = fileName, found = False, id' = []\<rparr>
                      | f # _ \<Rightarrow>
                          if Name f \<noteq> fileName
                          then \<lparr>setAt = now_set env, file' = fileName, found = False, id' = []\<rparr>
                          else \<lparr>setAt = now_set env, file' = fileName, found = True, id' = ID f\<rparr>);
                     be' = be\<lparr>lastList := slot\<rparr>
                   in (Ok (found slot, id' slot), be', [ListFileNamesC fileName 1]))))
      else (Ok (found (lastList be), id' (lastList be)), be, []))"

definition clearListFileCache :: "B2Ext \<Rightarrow> B2Ext" where
  "clearListFileCache be =
     be\<lparr>lastList := \<lparr>setAt = zeroTime, file' = [], found = False, id' = []\<rparr>\<rparr>"


subsection \<open>Store\<close>

text \<open>
  The task that hashes the local file while the lookup runs. \<open>Store\<close> reads its three
  results only after the task has signalled that it is done, so the model computes them
  first: \<open>(haveSHA, contentLength, shaError)\<close>. A nil byte slice is the empty list.
\<close>

definition hashFile :: "Env \<Rightarrow> OSFile \<Rightarrow> byte list \<times> int \<times> error option" where
  "hashFile env fh =
     (case readError fh of
        Some e \<Rightarrow> ([], int (length (contents fh)), Some e)
      | None \<Rightarrow> (sha1_Sum env (contents fh), int (length (contents fh)), seekError fh))"

text \<open>A block of \<open>Store\<close> either returns from \<open>Store\<close> or falls through to what follows.\<close>

datatype flow = Return "unit result" | Proceed

text \<open>The body of \<^verbatim>\<open>if found { ... }\<close>.\<close>

definition Store_found ::
  "Env \<Rightarrow> string \<Rightarrow> string \<Rightarrow> byte list \<Rightarrow> B2Ext \<Rightarrow> flow \<times> call list" where
  "Store_found env key fileID haveSHA be =
     (case bucket be of
        None \<Rightarrow> (Return Panic, [])
      | Some b \<Rightarrow>
          (case GetFileInfo env b fileID of
             Inl err \<Rightarrow>
               (Return (Failure (Errorf (''couldn't get file info for '' @ gosyntax env fileID @ '': '') err)),
                [GetFileInfoC fileID])
           | Inr None \<Rightarrow> (Proceed, [GetFileInfoC fileID])
           | Inr (Some b2file) \<Rightarrow>
               if (case hex_DecodeString (ContentSha1 b2file) of
                     None \<Rightarrow> False
                   | Some wantSHA \<Rightarrow> haveSHA = wantSHA)
               then (Return (Ok ()), [GetFileInfoC fileID])
               else
                 (case DeleteFileVersion env b (prefix be @ key) (ID b2file) of
                    Some err \<Rightarrow>
                      (Return (Failure (Errorf ''couldn't delete old file version: '' err)),
                       [GetFileInfoC fileID, DeleteFileVersionC (prefix be @ key) (ID b2file)])
                  | None \<Rightarrow>
                      (Proceed,
                       [GetFileInfoC fileID, DeleteFileVersionC (prefix be @ key) (ID b2file)]))))"

text \<open>From the second wait for the hash to the end of \<open>Store\<close>.\<close>

definition Store_upload ::
  "Env \<Rightarrow> string \<Rightarrow> string \<Rightarrow> byte list \<Rightarrow> int \<Rightarrow> error option \<Rightarrow> B2Ext \<Rightarrow>
   unit result \<times> B2Ext \<times> call list" where
  "Store_upload env key fileName haveSHA contentLength shaError be =
     (case shaError of
        Some e \<Rightarrow>
          (Failure (Errorf (''couldn't hash local file '' @ fileName @ '': '') e), be, [])
      | None \<Rightarrow>
          (case bucket be of
             None \<Rightarrow> (Panic, be, [])
           | Some b \<Rightarrow>
               (let err = UploadHashedFile env b (prefix be @ key)
                            (hex_EncodeToString haveSHA) contentLength;
                    be' = clearListFileCache be;
                    tr = [UploadHashedFileC (prefix be @ key)
                            (hex_EncodeToString haveSHA) contentLength]
                in case err of
                     Some e \<Rightarrow> (Failure (Errorf ''couldn't upload file: '' e), be', tr)
                   | None \<Rightarrow> (Ok (), be', tr))))"

definition Store ::
  "Env \<Rightarrow> string \<Rightarrow> string \<Rightarrow> B2Ext \<Rightarrow> unit result \<times> B2Ext \<times> call list" where
  "Store env key fileName be =
     (case os_Open env fileName of
        Inl err \<Rightarrow> (Failure err, be, [])
      | Inr fh \<Rightarrow>
          (case hashFile env fh of
             (haveSHA, contentLength, shaError) \<Rightarrow>
               (case listFileCached env (prefix be @ key) be of
                  (Panic, be1, tr1) \<Rightarrow> (Panic, be1, tr1)
                | (Failure err, be1, tr1) \<Rightarrow>
                    (Failure (Errorf ''couldn't list filenames: '' err), be1, tr1)
                | (Ok (fnd, fileID), be1, tr1) \<Rightarrow>
                    (case (if fnd then Store_found env key fileID haveSHA be1
                           else (Proceed, [])) of
                       (Return r, tr2) \<Rightarrow> (r, be1, tr1 @ tr2)
                     | (Proceed, tr2) \<Rightarrow>
                         (case Store_upload env key fileName haveSHA contentLength shaError be1 of
                            (r, be2, tr3) \<Rightarrow> (r, be2, tr1 @ tr2 @ tr3))))))"

subsection \<open>CheckPresent and Remove\<close>

definition CheckPresent ::
  "Env \<Rightarrow> string \<Rightarrow> B2Ext \<Rightarrow> bool result \<times> B2Ext \<times> call list" where
  "CheckPresent env key be =
     (case listFileCached env (prefix be @ key) be of
        (Panic, be1, tr1) \<Rightarrow> (Panic, be1, tr1)
      | (Failure err, be1, tr1) \<Rightarrow>
          (Failure (Errorf ''couldn't list filenames: '' err), be1, tr1)
      | (Ok (fnd, _), be1, tr1) \<Rightarrow> (Ok fnd, be1, tr1))"

definition Remove ::
  "Env \<Rightarrow> string \<Rightarrow> B2Ext \<Rightarrow> unit result \<times> B2Ext \<times> call list" where
  "Remove env key be =
     (case listFileCached env (prefix be @ key) be of
        (Panic, be1, tr1) \<Rightarrow> (Panic, be1, tr1)
      | (Failure err, be1, tr1) \<Rightarrow>
          (Failure (Errorf ''couldn't list filenames: '' err), be1, tr1)
      | (Ok (fnd, fileID), be1, tr1) \<Rightarrow>
          if \<not> fnd then (Ok (), be1, tr1)
          else
            (case bucket be1 of
               None \<Rightarrow> (Panic, be1, tr1)
             | Some b \<Rightarrow>
                 (let err = DeleteFileVersion env b (prefix be1 @ key) fileID;
                      be2 = clearListFileCache be1;
                      tr2 = tr1 @ [DeleteFileVersionC (prefix be1 @ key) fileID]
                  in case err of
                       Some e \<Rightarrow> (Failure (Errorf ''couldn't delete file version: '' e), be2, tr2)
                     | None \<Rightarrow> (Ok (), be2, tr2))))"


subsection \<open>Setup\<close>

definition authenticate :: "Env \<Rightarrow> (error + B2) \<times> call list" where
  "authenticate env =
     (case GetConfig env ''accountid'' of
        (_, Some err) \<Rightarrow> (Inl err, [GetConfigC ''accountid''])
      | (accountID0, None) \<Rightarrow>
          (let accountID = (if accountID0 = [] then Getenv env ''B2_ACCOUNT_ID'' else accountID0)
           in if accountID = []
              then (Inl (Error ''You must set accountid to the backblaze account id''),
                    [GetConfigC ''accountid''])
              else
                (case GetConfig env ''appkey'' of
                   (_, Some err) \<Rightarrow> (Inl err, [GetConfigC ''accountid'', GetConfigC ''appkey''])
                 | (appKey0, None) \<Rightarrow>
                     (let appKey = (if appKey0 = [] then Getenv env ''B2_APP_KEY'' else appKey0)
                      in if appKey = []
                         then (Inl (Error ''You must set appkey to the backblaze application key''),
                               [GetConfigC ''accountid'', GetConfigC ''appkey''])
                         else
                           (let creds = \<lparr>AccountID = accountID, ApplicationKey = appKey\<rparr>;
                                tr = [GetConfigC ''accountid'', GetConfigC ''appkey'', NewB2C creds]
                            in case NewB2 env creds of
                                 Inl err \<Rightarrow> (Inl (Errorf ''Couldn't authorize: '' err), tr)
                               | Inr b2 \<Rightarrow> (Inr b2, tr))))))"

definition getBucketConfig :: "Env \<Rightarrow> (error + string \<times> string) \<times> call list" where
  "getBucketConfig env =
     (case GetConfig env ''bucket'' of
        (_, Some err) \<Rightarrow> (Inl err, [GetConfigC ''bucket''])
      | (bucketName, None) \<Rightarrow>
          if bucketName = []
          then (Inl (Error ''You must set bucket to the bucket name''), [GetConfigC ''bucket''])
          else
            (case GetConfig env ''prefix'' of
               (prefix0, err) \<Rightarrow>
                 (let prefix1 = (if prefix0 \<noteq> [] \<and> \<not> HasSuffix prefix0 ''/''
                                 then prefix0 @ ''/'' else prefix0)
                  in (Inr (bucketName, prefix1), [GetConfigC ''bucket'', GetConfigC ''prefix'']))))"

text \<open>
  \<^verbatim>\<open>(be *B2Ext) setup\<close>. The line written to standard error before a bucket is
  created is not part of the model.
\<close>

definition setup' ::
  "Env \<Rightarrow> bool \<Rightarrow> B2Ext \<Rightarrow> unit result \<times> B2Ext \<times> call list" where
  "setup' env canCreateBucket be =
     (if bucket be \<noteq> None then (Ok (), be, [])
      else
        (case authenticate env of
           (Inl err, tr1) \<Rightarrow> (Failure err, be, tr1)
         | (Inr b2, tr1) \<Rightarrow>
             (case getBucketConfig env of
                (Inl err, tr2) \<Rightarrow> (Failure err, be, tr1 @ tr2)
              | (Inr (bucketName, prefix1), tr2) \<Rightarrow>
                  (case OpenBucket env b2 bucketName of
                     Inl err \<Rightarrow>
                       (Failure (Errorf (''couldn't open bucket '' @ gosyntax env bucketName @ '': '') err),
                        be, tr1 @ tr2 @ [BucketC bucketName])
                   | Inr (Some bkt) \<Rightarrow>
                       (Ok (), be\<lparr>bucket := Some bkt, prefix := prefix1\<rparr>,
                        tr1 @ tr2 @ [BucketC bucketName])
                   | Inr None \<Rightarrow>
                       if \<not> canCreateBucket
                       then (Failure (Error (''bucket '' @ gosyntax env bucketName @ '' does not exist anymore'')),
                             be, tr1 @ tr2 @ [BucketC bucketName])
                       else
                         (case CreateBucket env b2 bucketName AllPrivate of
                            Inl err \<Rightarrow>
                              (Failure (Errorf (''couldn't create bucket '' @ gosyntax env bucketName @ '': '') err),
                               be,
                               tr1 @ tr2 @ [BucketC bucketName, CreateBucketC bucketName AllPrivate])
                          | Inr bkt \<Rightarrow>
                              (Ok (), be\<lparr>bucket := Some bkt, prefix := prefix1\<rparr>,
                               tr1 @ tr2 @ [BucketC bucketName, CreateBucketC bucketName AllPrivate]))))))"

definition InitRemote :: "Env \<Rightarrow> B2Ext \<Rightarrow> unit result \<times> B2Ext \<times> call list" where
  "InitRemote env be = setup' env True be"

definition Prepare :: "Env \<Rightarrow> B2Ext \<Rightarrow> unit result \<times> B2Ext \<times> call list" where
  "Prepare env be = setup' env False be"

subsection \<open>GetCost, GetAvailability, WhereIs\<close>

datatype Availability = AvailabilityGlobal | AvailabilityLocal

definition GetCost :: "Env \<Rightarrow> B2Ext \<Rightarrow> int \<times> error option" where
  "GetCost env be = (0, Some ErrUnsupportedRequest)"

definition GetAvailability :: "Env \<Rightarrow> B2Ext \<Rightarrow> Availability \<times> error option" where
  "GetAvailability env be = (AvailabilityGlobal, None)"

definition WhereIs :: "Env \<Rightarrow> string \<Rightarrow> B2Ext \<Rightarrow> string \<times> error option" where
  "WhereIs env key be = ([], Some ErrUnsupportedRequest)"

section \<open>The progress reader\<close>

definition progressByteLimit :: int where
  "progressByteLimit = 256 * 1024"

text \<open>The value of a 64-bit signed integer after an addition or subtraction wraps.\<close>

definition wrap64 :: "int \<Rightarrow> int" where
  "wrap64 x = (x + 2 ^ 63) mod 2 ^ 64 - 2 ^ 63"

text \<open>
  The counters of \<^verbatim>\<open>ProgressReader\<close>: \<open>pr_n\<close> is the field \<^verbatim>\<open>n\<close>, \<open>pr_lastPrint\<close>
  the field \<^verbatim>\<open>lastPrint\<close>. The wrapped reader is given by what each of its reads
  returns, the writer by the lines written to it.
\<close>

record ProgressReader =
  pr_n :: int
  pr_lastPrint :: int

definition NewProgressReader :: ProgressReader where
  "NewProgressReader = \<lparr>pr_n = 0, pr_lastPrint = 0\<rparr>"

text \<open>\<open>PROGRESS k\<close> is the line \<^verbatim>\<open>PROGRESS k\<close> written to the control channel and flushed.\<close>

datatype line = PROGRESS int

text \<open>
  \<^verbatim>\<open>(pr *ProgressReader) Read\<close>. The argument is the answer of the wrapped
  reader: the bytes it put in the buffer (their number is \<^verbatim>\<open>n\<close>) and its error.
\<close>

definition Read ::
  "ProgressReader \<Rightarrow> byte list \<times> error option \<Rightarrow>
   (byte list \<times> error option) \<times> ProgressReader \<times> line list" where
  "Read pr answer =
     (case answer of
        (p, err) \<Rightarrow>
          (let pr1 = pr\<lparr>pr_n := wrap64 (pr_n pr + int (length p))\<rparr>
           in if wrap64 (pr_n pr1 - pr_lastPrint pr1) > progressByteLimit
              then ((p, err), pr1\<lparr>pr_lastPrint := pr_n pr1\<rparr>, [PROGRESS (pr_n pr1)])
              else ((p, err), pr1, [])))"

text \<open>
  A transfer: the consumer calls \<open>Read\<close> once per answer of the wrapped reader. The
  result is the final reader, what the calls returned, and the lines written.
\<close>

fun transfer ::
  "ProgressReader \<Rightarrow> (byte list \<times> error option) list \<Rightarrow>
   ProgressReader \<times> (byte list \<times> error option) list \<times> line list" where
  "transfer pr [] = (pr, [], [])"
| "transfer pr (a # as) =
     (case Read pr a of
        (r, pr1, out1) \<Rightarrow>
          (case transfer pr1 as of
             (pr2, rs, out2) \<Rightarrow> (pr2, r # rs, out1 @ out2)))"


text \<open>
  The totals the progress lines of a transfer should carry, computed on unbounded
  integers from the numbers of bytes of the successive reads: \<open>tot\<close> is the running
  total, \<open>base\<close> the total at the last line written. This definition follows the
  description of the reporter, not the code.
\<close>

fun reported :: "int \<Rightarrow> int \<Rightarrow> nat list \<Rightarrow> int list" where
  "reported tot base [] = []"
| "reported tot base (k # ks) =
     (if tot + int k - base > 256 * 1024
      then (tot + int k) # reported (tot + int k) (tot + int k) ks
      else reported (tot + int k) base ks)"

text \<open>The total a progress line carries.\<close>

primrec bytesSoFar :: "line \<Rightarrow> int" where
  "bytesSoFar (PROGRESS k) = k"

section \<open>Sequences of setup calls\<close>

text \<open>
  A sequence of \<open>InitRemote\<close> (\<open>True\<close>) and \<open>Prepare\<close> (\<open>False\<close>) requests, each
  with the answers of the outside during that request: the results and the calls of
  each request, and the adapter at the end.
\<close>

fun setups ::
  "(Env \<times> bool) list \<Rightarrow> B2Ext \<Rightarrow> (unit result \<times> call list) list \<times> B2Ext" where
  "setups [] be = ([], be)"
| "setups ((env, canCreateBucket) # rest) be =
     (case setup' env canCreateBucket be of
        (r, be1, tr) \<Rightarrow>
          (case setups rest be1 of
             (rs, be2) \<Rightarrow> ((r, tr) # rs, be2)))"

section \<open>Concrete adapters and environments\<close>

text \<open>The adapter as \<^verbatim>\<open>main\<close> creates it: \<^verbatim>\<open>&B2Ext{}\<close>.\<close>

definition be_new :: B2Ext where
  "be_new = \<lparr>bucket = None, prefix = [],
             lastList = \<lparr>setAt = zeroTime, file' = [], found = False, id' = []\<rparr>\<rparr>"

text \<open>An adapter after a successful setup with prefix \<open>raw\<close>, its slot cleared.\<close>

definition be_ready :: B2Ext where
  "be_ready = \<lparr>bucket = Some (Bucket ''annex''), prefix = ''raw/'',
               lastList = \<lparr>setAt = zeroTime, file' = [], found = False, id' = []\<rparr>\<rparr>"

text \<open>
  The same adapter one second after a lookup at time \<open>1000 s\<close> that found the object
  \<open>raw/k\<close> with version \<open>v1\<close>.
\<close>

definition be_cached :: B2Ext where
  "be_cached = \<lparr>bucket = Some (Bucket ''annex''), prefix = ''raw/'',
                lastList = \<lparr>setAt = 1000 * Second, file' = ''raw/k'', found = True, id' = ''v1''\<rparr>\<rparr>"

definition file_k :: File where
  "file_k = \<lparr>ID = ''v1'', Name = ''raw/k'', ContentSha1 = ''abcd''\<rparr>"

text \<open>
  An outside where everything succeeds: the configuration names account, key, bucket
  \<open>annex\<close> and prefix \<open>raw\<close>; the bucket exists and holds the one object \<open>raw/k\<close>,
  version \<open>v1\<close>, stored hash \<open>abcd\<close>; every local file opens, holds three bytes and
  has the digest \<open>ab cd\<close> (a two-byte stand-in for SHA-1); the clock reads \<open>1001 s\<close>.
  Every name printed with \<^verbatim>\<open>%#v\<close> in these runs (\<open>annex\<close>, \<open>v1\<close>) consists of
  printable ASCII letters and digits, which the Go library prints unchanged between
  double quotes; \<open>gosyntax\<close> is that here.
\<close>

definition env_ok :: Env where
  "env_ok =
     \<lparr>GetConfig = (\<lambda>name.
          if name = ''accountid'' then (''acct'', None)
          else if name = ''appkey'' then (''key'', None)
          else if name = ''bucket'' then (''annex'', None)
          else if name = ''prefix'' then (''raw'', None)
          else ([], None)),
      Getenv = (\<lambda>name. []),
      NewB2 = (\<lambda>creds. Inr (B2 creds)),
      OpenBucket = (\<lambda>b2 name. Inr (Some (Bucket name))),
      CreateBucket = (\<lambda>b2 name ty. Inr (Bucket name)),
      ListFileNames = (\<lambda>b name limit. Inr [file_k]),
      GetFileInfo = (\<lambda>b fileID. Inr (Some file_k)),
      DeleteFileVersion = (\<lambda>b name fileID. None),
      UploadHashedFile = (\<lambda>b name sha len. None),
      os_Open = (\<lambda>name. Inr \<lparr>contents = [1, 2, 3], readError = None, seekError = None\<rparr>),
      sha1_Sum = (\<lambda>bs. [0xAB, 0xCD]),
      gosyntax = (\<lambda>s. [CHR 0x22] @ s @ [CHR 0x22]),
      now_since = 1001 * Second,
      now_set = 1001 * Second\<rparr>"

text \<open>The stored hash of \<open>raw/k\<close> differs from the local digest.\<close>

definition env_differs :: Env where
  "env_differs =
     env_ok\<lparr>GetFileInfo := (\<lambda>b fileID. Inr (Some (file_k\<lparr>ContentSha1 := ''0000''\<rparr>)))\<rparr>"

text \<open>The stored hash differs and the object store refuses every delete.\<close>

definition env_delete_fails :: Env where
  "env_delete_fails =
     env_differs\<lparr>DeleteFileVersion := (\<lambda>b name fileID. Some (Error ''delete refused''))\<rparr>"

text \<open>The object store refuses every upload.\<close>

definition env_upload_fails :: Env where
  "env_upload_fails =
     env_differs\<lparr>UploadHashedFile := (\<lambda>b name sha len. Some (Error ''upload refused''))\<rparr>"

text \<open>The bucket is empty.\<close>

definition env_empty :: Env where
  "env_empty = env_ok\<lparr>ListFileNames := (\<lambda>b name limit. Inr [])\<rparr>"

text \<open>The object store refuses every listing.\<close>

definition env_list_fails :: Env where
  "env_list_fails =
     env_ok\<lparr>ListFileNames := (\<lambda>b name limit. Inl (Error ''listing refused''))\<rparr>"

text \<open>The bucket does not exist.\<close>

definition env_no_bucket :: Env where
  "env_no_bucket = env_ok\<lparr>OpenBucket := (\<lambda>b2 name. Inr None)\<rparr>"

text \<open>The query for \<open>prefix\<close> fails on the control channel; the other three succeed.\<close>

definition env_prefix_error :: Env where
  "env_prefix_error =
     env_ok\<lparr>GetConfig := (\<lambda>name.
        if name = ''prefix'' then ([], Some (Error ''control channel closed''))
        else GetConfig env_ok name)\<rparr>"

text \<open>
  Reading the local file fails after three bytes, and the object store reports the
  object \<open>raw/k\<close> with an empty stored hash.
\<close>

definition env_hash_fails :: Env where
  "env_hash_fails =
     env_ok\<lparr>os_Open := (\<lambda>name. Inr \<lparr>contents = [1, 2, 3],
                                     readError = Some (Error ''input/output error''),
                                     seekError = None\<rparr>),
            GetFileInfo := (\<lambda>b fileID. Inr (Some (file_k\<lparr>ContentSha1 := []\<rparr>)))\<rparr>"

text \<open>The clock reads exactly 15 seconds after the slot of \<open>be_cached\<close> was set.\<close>

definition env_at_15s :: Env where
  "env_at_15s = env_ok\<lparr>now_since := 1015 * Second\<rparr>"

section \<open>Evaluation and auxiliary facts\<close>

lemmas fixture_defs = env_ok_def env_differs_def env_delete_fails_def env_upload_fails_def
  env_empty_def env_list_fails_def env_no_bucket_def env_prefix_error_def env_hash_fails_def
  env_at_15s_def file_k_def be_new_def be_ready_def be_cached_def

lemmas time_defs = time_Since_def time_Sub_def zeroTime_def Second_def maxDuration_def
  minDuration_def

lemma time_Since_zeroTime:
  "zeroTime + Second * 15 < now_since env \<Longrightarrow> Second * 15 < time_Since env zeroTime"
  by (simp add: time_defs Let_def)

lemma listFileCached_keeps:
  "listFileCached env name be = (r, be1, tr) \<Longrightarrow> prefix be1 = prefix be \<and> bucket be1 = bucket be"
  by (auto simp: listFileCached_def Let_def split: if_splits option.splits sum.splits list.splits)

lemma listFileCached_hit:
  "file' (lastList be) = name \<Longrightarrow> time_Since env (setAt (lastList be)) \<le> Second * 15 \<Longrightarrow>
   listFileCached env name be = (Ok (found (lastList be), id' (lastList be)), be, [])"
  by (simp add: listFileCached_def)

lemma listFileCached_miss_calls:
  "file' (lastList be) \<noteq> name \<or> Second * 15 < time_Since env (setAt (lastList be)) \<Longrightarrow>
   bucket be = Some b \<Longrightarrow>
   snd (snd (listFileCached env name be)) = [ListFileNamesC name 1]"
  by (auto simp: listFileCached_def Let_def split: sum.splits list.splits)

lemma listFileCached_miss_error:
  "file' (lastList be) \<noteq> name \<or> Second * 15 < time_Since env (setAt (lastList be)) \<Longrightarrow>
   bucket be = Some b \<Longrightarrow> ListFileNames env b name 1 = Inl err \<Longrightarrow>
   listFileCached env name be = (Failure err, be, [ListFileNamesC name 1])"
  by (auto simp: listFileCached_def)

lemma listFileCached_miss_ok:
  "file' (lastList be) \<noteq> name \<or> Second * 15 < time_Since env (setAt (lastList be)) \<Longrightarrow>
   bucket be = Some b \<Longrightarrow> ListFileNames env b name 1 = Inr files \<Longrightarrow>
   hit = (files \<noteq> [] \<and> Name (hd files) = name) \<Longrightarrow>
   listFileCached env name be =
     (Ok (hit, if hit then ID (hd files) else []),
      be\<lparr>lastList := \<lparr>setAt = now_set env, file' = name, found = hit,
                        id' = (if hit then ID (hd files) else [])\<rparr>\<rparr>,
      [ListFileNamesC name 1])"
  by (auto simp: listFileCached_def Let_def split: list.splits)

lemma listFileCached_Ok_slot:
  "listFileCached env name be = (Ok (fnd, fileID), be1, tr) \<Longrightarrow>
   file' (lastList be1) = name \<and> found (lastList be1) = fnd \<and> id' (lastList be1) = fileID"
  by (auto simp: listFileCached_def Let_def split: if_splits option.splits sum.splits list.splits)

lemma listFileCached_calls:
  "listFileCached env name be = (r, be1, tr) \<Longrightarrow> tr = [] \<or> tr = [ListFileNamesC name 1]"
  by (auto simp: listFileCached_def Let_def split: if_splits option.splits sum.splits list.splits)

lemma clearListFileCache_lookup:
  "zeroTime + Second * 15 < now_since env \<Longrightarrow> bucket be = Some b \<Longrightarrow>
   snd (snd (listFileCached env name (clearListFileCache be))) = [ListFileNamesC name 1]"
  by (rule listFileCached_miss_calls [where b = b])
     (simp_all add: clearListFileCache_def time_Since_zeroTime)

lemma CheckPresent_calls:
  "snd (snd (CheckPresent env key be)) = snd (snd (listFileCached env (prefix be @ key) be))"
  by (auto simp: CheckPresent_def split: prod.splits result.splits)

lemma CheckPresent_Ok:
  "CheckPresent env key be = (Ok r, be1, tr) \<Longrightarrow>
   \<exists>fileID. listFileCached env (prefix be @ key) be = (Ok (r, fileID), be1, tr)"
  by (auto simp: CheckPresent_def split: prod.splits result.splits)


lemma hex_examples:
  "hex_DecodeString ''abcd'' = Some [0xAB, 0xCD]"
  "hex_DecodeString ''0000'' = Some [0, 0]"
  "hex_EncodeToString [0xAB, 0xCD] = ''abcd''"
  by (simp_all add: fromHexChar_def hextable_def)

lemmas Store_defs = Store_def Store_found_def Store_upload_def hashFile_def listFileCached_def
  clearListFileCache_def

lemma Store_found_calls:
  "Store_found env key fileID sha be = (fl, tr) \<Longrightarrow> UploadHashedFileC n h l \<notin> set tr"
  by (auto simp: Store_found_def split: option.splits sum.splits if_splits)

lemma Store_upload_cases:
  "Store_upload env key fileName sha len serr be = (r, be2, tr) \<Longrightarrow>
   (tr = [] \<and> be2 = be) \<or>
   (tr = [UploadHashedFileC (prefix be @ key) (hex_EncodeToString sha) len] \<and>
    be2 = clearListFileCache be \<and> bucket be \<noteq> None)"
  by (auto simp: Store_upload_def Let_def split: option.splits)

lemma clearListFileCache_simps:
  "lastList (clearListFileCache be) = \<lparr>setAt = zeroTime, file' = [], found = False, id' = []\<rparr>"
  "bucket (clearListFileCache be) = bucket be"
  "prefix (clearListFileCache be) = prefix be"
  by (simp_all add: clearListFileCache_def)

lemma Store_upload_clears:
  assumes "Store env key fileName be = (r, be1, tr)"
    and "UploadHashedFileC n h l \<in> set tr"
  shows "lastList be1 = \<lparr>setAt = zeroTime, file' = [], found = False, id' = []\<rparr> \<and>
         bucket be1 \<noteq> None \<and> prefix be1 = prefix be"
proof -
  from assms(1) obtain fh where op: "os_Open env fileName = Inr fh"
    using assms(2) by (auto simp: Store_def split: sum.splits)
  obtain sha len serr where hf: "hashFile env fh = (sha, len, serr)"
    by (cases "hashFile env fh") auto
  obtain r0 be0 tr0 where lf: "listFileCached env (prefix be @ key) be = (r0, be0, tr0)"
    by (cases "listFileCached env (prefix be @ key) be") auto
  have tr0: "UploadHashedFileC n h l \<notin> set tr0"
    using listFileCached_calls [OF lf] by auto
  have keep: "prefix be0 = prefix be" "bucket be0 = bucket be"
    using listFileCached_keeps [OF lf] by auto
  from assms op hf lf tr0 obtain fnd fileID where r0: "r0 = Ok (fnd, fileID)"
    by (cases r0) (auto simp: Store_def)
  obtain fl tr2 where sf:
    "(if fnd then Store_found env key fileID sha be0 else (Proceed, [])) = (fl, tr2)"
    by (cases "if fnd then Store_found env key fileID sha be0 else (Proceed, [])") auto
  have tr2: "UploadHashedFileC n h l \<notin> set tr2"
    using sf Store_found_calls by (auto split: if_splits)
  obtain r3 be3 tr3 where su:
    "Store_upload env key fileName sha len serr be0 = (r3, be3, tr3)"
    by (cases "Store_upload env key fileName sha len serr be0") auto
  from assms op hf lf r0 sf tr0 tr2 su have fl: "fl = Proceed"
    by (cases fl) (auto simp: Store_def)
  with assms op hf lf r0 sf su have eq: "be1 = be3" "tr = tr0 @ tr2 @ tr3"
    by (auto simp: Store_def)
  with assms(2) tr0 tr2 have "tr3 \<noteq> []" by auto
  with Store_upload_cases [OF su] have "be3 = clearListFileCache be0" "bucket be0 \<noteq> None"
    by auto
  with eq keep show ?thesis by (simp add: clearListFileCache_simps)
qed

lemma Remove_delete_clears:
  assumes "Remove env key be = (r, be1, tr)"
    and "DeleteFileVersionC n i \<in> set tr"
  shows "lastList be1 = \<lparr>setAt = zeroTime, file' = [], found = False, id' = []\<rparr> \<and>
         bucket be1 \<noteq> None \<and> prefix be1 = prefix be"
proof -
  obtain r0 be0 tr0 where lf: "listFileCached env (prefix be @ key) be = (r0, be0, tr0)"
    by (cases "listFileCached env (prefix be @ key) be") auto
  have tr0: "DeleteFileVersionC n i \<notin> set tr0"
    using listFileCached_calls [OF lf] by auto
  have keep: "prefix be0 = prefix be" "bucket be0 = bucket be"
    using listFileCached_keeps [OF lf] by auto
  from assms lf tr0 have "be1 = clearListFileCache be0 \<and> bucket be0 \<noteq> None"
    by (cases r0) (auto simp: Remove_def Let_def split: if_splits option.splits)
  with keep show ?thesis by (simp add: clearListFileCache_simps)
qed

lemma cleared_CheckPresent:
  assumes "lastList be = \<lparr>setAt = zeroTime, file' = [], found = False, id' = []\<rparr>"
    and "bucket be \<noteq> None"
    and "zeroTime + Second * 15 < now_since env"
  shows "snd (snd (CheckPresent env key be)) = [ListFileNamesC (prefix be @ key) 1]"
proof -
  from assms(2) obtain b where b: "bucket be = Some b" by auto
  have "file' (lastList be) \<noteq> prefix be @ key \<or>
        Second * 15 < time_Since env (setAt (lastList be))"
    using assms(1,3) by (simp add: time_Since_zeroTime)
  from listFileCached_miss_calls [OF this b] show ?thesis
    by (simp add: CheckPresent_calls)
qed

text \<open>
  Claim C10. Whenever \<open>Store\<close> makes the upload call, the slot of the existence cache is
  cleared when \<open>Store\<close> returns, whatever the upload answered (\<open>r\<close> is any result), and
  the next presence check, for any key, issues a remote listing. The clock is assumed to
  read later than 15 seconds after the zero time of year 1.
\<close>

theorem Store_upload_invalidates:
  assumes "Store env key fileName be = (r, be1, tr)"
    and "UploadHashedFileC name sha len \<in> set tr"
  shows "lastList be1 = \<lparr>setAt = zeroTime, file' = [], found = False, id' = []\<rparr> \<and>
         (zeroTime + Second * 15 < now_since env2 \<longrightarrow>
            snd (snd (CheckPresent env2 key2 be1)) = [ListFileNamesC (prefix be @ key2) 1])"
  using Store_upload_clears [OF assms] cleared_CheckPresent [of be1 env2 key2] by simp

theorem Store_upload_invalidates_witness:
  "fst (Store env_upload_fails ''k'' ''f'' be_ready) =
     Failure (Errorf ''couldn't upload file: '' (Error ''upload refused'')) \<and>
   lastList (fst (snd (Store env_upload_fails ''k'' ''f'' be_ready))) =
     \<lparr>setAt = zeroTime, file' = [], found = False, id' = []\<rparr> \<and>
   snd (snd (CheckPresent env_ok ''k'' (fst (snd (Store env_upload_fails ''k'' ''f'' be_ready))))) =
     [ListFileNamesC ''raw/k'' 1]"
proof -
  have run: "Store env_upload_fails ''k'' ''f'' be_ready =
      (Failure (Errorf ''couldn't upload file: '' (Error ''upload refused'')),
       clearListFileCache be_ready,
       [ListFileNamesC ''raw/k'' 1, GetFileInfoC ''v1'', DeleteFileVersionC ''raw/k'' ''v1'',
        UploadHashedFileC ''raw/k'' ''abcd'' 3])"
    by (simp add: Store_defs fixture_defs time_defs hex_examples
        del: hex_DecodeString.simps hex_EncodeToString.simps)
  have up: "UploadHashedFileC ''raw/k'' ''abcd'' 3 \<in>
      set [ListFileNamesC ''raw/k'' 1, GetFileInfoC ''v1'', DeleteFileVersionC ''raw/k'' ''v1'',
        UploadHashedFileC ''raw/k'' ''abcd'' 3]"
    by simp
  have clock: "zeroTime + Second * 15 < now_since env_ok"
    by (simp add: fixture_defs time_defs)
  have pfx: "prefix be_ready = ''raw/''"
    by (simp add: be_ready_def)
  from Store_upload_invalidates [OF run up, of env_ok "''k''"] clock show ?thesis
    by (simp add: run pfx)
qed

lemmas Remove_defs = Remove_def listFileCached_def clearListFileCache_def

section \<open>Remove when the delete fails\<close>

text \<open>
  Against claim C4 as stated: the slot holds a fresh entry for \<open>raw/k\<close>, the lookup of
  \<open>Remove\<close> reuses it, the delete is refused. \<open>Remove\<close> fails, and the slot is not the
  one it was: it has been cleared.
\<close>

theorem Remove_untouched_counterexample:
  "fst (Remove env_delete_fails ''k'' be_cached) =
     Failure (Errorf ''couldn't delete file version: '' (Error ''delete refused'')) \<and>
   snd (snd (Remove env_delete_fails ''k'' be_cached)) = [DeleteFileVersionC ''raw/k'' ''v1''] \<and>
   lastList be_cached =
     \<lparr>setAt = 1000 * Second, file' = ''raw/k'', found = True, id' = ''v1''\<rparr> \<and>
   lastList (fst (snd (Remove env_delete_fails ''k'' be_cached))) =
     \<lparr>setAt = zeroTime, file' = [], found = False, id' = []\<rparr> \<and>
   lastList (fst (snd (Remove env_delete_fails ''k'' be_cached))) \<noteq> lastList be_cached"
  by (simp add: Remove_defs fixture_defs time_defs)

text \<open>
  Claim C4, amended. When the lookup of \<open>Remove\<close> reports the object present and the
  delete of that version fails, \<open>Remove\<close> fails with the delete error and the slot of
  the existence cache is cleared: \<open>clearListFileCache\<close> runs right after the delete
  call, before its error is looked at.
\<close>

theorem Remove_delete_failure:
  assumes "listFileCached env (prefix be @ key) be = (Ok (True, fileID), be1, tr1)"
    and "bucket be = Some b"
    and "DeleteFileVersion env b (prefix be @ key) fileID = Some e"
  shows "Remove env key be =
           (Failure (Errorf ''couldn't delete file version: '' e),
            clearListFileCache be1,
            tr1 @ [DeleteFileVersionC (prefix be @ key) fileID]) \<and>
         lastList (clearListFileCache be1) =
           \<lparr>setAt = zeroTime, file' = [], found = False, id' = []\<rparr>"
  using assms listFileCached_keeps [OF assms(1)]
  by (simp add: Remove_def Let_def clearListFileCache_simps)

theorem Remove_delete_failure_witness:
  "Remove env_delete_fails ''k'' be_cached =
     (Failure (Errorf ''couldn't delete file version: '' (Error ''delete refused'')),
      clearListFileCache be_cached,
      [DeleteFileVersionC ''raw/k'' ''v1'']) \<and>
   lastList (clearListFileCache be_cached) =
     \<lparr>setAt = zeroTime, file' = [], found = False, id' = []\<rparr>"
proof -
  have pfx: "prefix be_cached = ''raw/''" and bkt: "bucket be_cached = Some (Bucket ''annex'')"
    by (simp_all add: be_cached_def)
  have look: "listFileCached env_delete_fails (prefix be_cached @ ''k'') be_cached =
      (Ok (True, ''v1''), be_cached, [])"
    by (simp add: listFileCached_def fixture_defs time_defs)
  have del: "DeleteFileVersion env_delete_fails (Bucket ''annex'') (prefix be_cached @ ''k'') ''v1'' =
      Some (Error ''delete refused'')"
    by (simp add: fixture_defs)
  from Remove_delete_failure [OF look bkt del] show ?thesis
    by (simp add: pfx)
qed


section \<open>The existence cache\<close>

lemma CheckPresent_again:
  assumes "CheckPresent env key be = (Ok r, be1, tr1)"
    and "time_Since env2 (setAt (lastList be1)) \<le> Second * 15"
  shows "CheckPresent env2 key be1 = (Ok r, be1, [])"
proof -
  from CheckPresent_Ok [OF assms(1)] obtain fileID where
    lf: "listFileCached env (prefix be @ key) be = (Ok (r, fileID), be1, tr1)" by blast
  from listFileCached_Ok_slot [OF lf] listFileCached_keeps [OF lf]
  have slot: "file' (lastList be1) = prefix be1 @ key" "found (lastList be1) = r" by simp_all
  from listFileCached_hit [OF slot(1) assms(2)] slot(2) show ?thesis
    by (simp add: CheckPresent_def)
qed

lemma CheckPresent_other:
  assumes "CheckPresent env key be = (Ok r, be1, tr1)"
    and "bucket be = Some b"
    and "key2 \<noteq> key"
  shows "snd (snd (CheckPresent env2 key2 be1)) = [ListFileNamesC (prefix be @ key2) 1]"
proof -
  from CheckPresent_Ok [OF assms(1)] obtain fileID where
    lf: "listFileCached env (prefix be @ key) be = (Ok (r, fileID), be1, tr1)" by blast
  from listFileCached_Ok_slot [OF lf] listFileCached_keeps [OF lf] assms(2,3)
  have "file' (lastList be1) \<noteq> prefix be1 @ key2" "bucket be1 = Some b" "prefix be1 = prefix be"
    by simp_all
  with listFileCached_miss_calls [of be1 "prefix be1 @ key2" env2 b] show ?thesis
    by (simp add: CheckPresent_calls)
qed

text \<open>
  Against claim C3 as stated. Exactly 15 seconds after the slot was set the elapsed time
  is not less than 15 seconds, yet the lookup of the same name reuses the slot and lists
  nothing. A \<open>Store\<close> that succeeds because the stored hash equals the local one, and
  a \<open>Remove\<close> that succeeds because the object is absent, leave the slot in place: the
  presence check that follows lists nothing. A listing that fails is issued but
  replaces nothing: the slot stays as it was.
\<close>

theorem existence_cache_boundary_counterexample:
  "file' (lastList be_cached) = ''raw/k'' \<and>
   time_Since env_at_15s (setAt (lastList be_cached)) = 15 * Second \<and>
   \<not> time_Since env_at_15s (setAt (lastList be_cached)) < 15 * Second \<and>
   listFileCached env_at_15s ''raw/k'' be_cached = (Ok (True, ''v1''), be_cached, []) \<and>
   fst (Store env_ok ''k'' ''f'' be_ready) = Ok () \<and>
   snd (snd (CheckPresent env_ok ''k'' (fst (snd (Store env_ok ''k'' ''f'' be_ready))))) = [] \<and>
   fst (Remove env_empty ''k'' be_ready) = Ok () \<and>
   snd (snd (CheckPresent env_empty ''k'' (fst (snd (Remove env_empty ''k'' be_ready))))) = [] \<and>
   listFileCached env_list_fails ''raw/k'' be_ready =
     (Failure (Error ''listing refused''), be_ready, [ListFileNamesC ''raw/k'' 1])"
  by (simp add: Store_defs Remove_def CheckPresent_def fixture_defs time_defs hex_examples
      del: hex_DecodeString.simps hex_EncodeToString.simps)

text \<open>
  Claim C3, amended. With a bucket bound, the lookup reuses the slot if and only if the
  slot's name is the name looked up and at most 15 seconds (15 seconds included) have
  passed since the slot was set. Otherwise it issues one listing of that exact name; a
  listing that succeeds replaces the slot, a listing that fails leaves it as it was.
  Hence, after a presence check that succeeded, a second check of the same key within
  the window issues no listing and gives the same answer; a check of another key issues
  a listing; and the check that follows a successful \<open>Store\<close> that uploaded, or a
  successful \<open>Remove\<close> that deleted, issues a listing (the clock reading later than 15
  seconds after the zero time of year 1).
\<close>

theorem existence_cache_reuse:
  fixes env env2 env3 env4 :: Env and be be1 be2 be3 :: B2Ext
  assumes "bucket be = Some b"
  shows
    "(file' (lastList be) = name \<and> time_Since env (setAt (lastList be)) \<le> Second * 15 \<longrightarrow>
        listFileCached env name be = (Ok (found (lastList be), id' (lastList be)), be, []))
     \<and> (\<not> (file' (lastList be) = name \<and> time_Since env (setAt (lastList be)) \<le> Second * 15) \<longrightarrow>
        snd (snd (listFileCached env name be)) = [ListFileNamesC name 1]
        \<and> (ListFileNames env b name 1 = Inr files \<longrightarrow>
             lastList (fst (snd (listFileCached env name be))) =
               \<lparr>setAt = now_set env, file' = name,
                found = (files \<noteq> [] \<and> Name (hd files) = name),
                id' = (if files \<noteq> [] \<and> Name (hd files) = name then ID (hd files) else [])\<rparr>)
        \<and> (ListFileNames env b name 1 = Inl err \<longrightarrow>
             listFileCached env name be = (Failure err, be, [ListFileNamesC name 1])))
     \<and> (CheckPresent env key be = (Ok r, be1, tr1) \<longrightarrow>
          (time_Since env2 (setAt (lastList be1)) \<le> Second * 15 \<longrightarrow>
             CheckPresent env2 key be1 = (Ok r, be1, []))
          \<and> (key2 \<noteq> key \<longrightarrow>
             snd (snd (CheckPresent env2 key2 be1)) = [ListFileNamesC (prefix be @ key2) 1]))
     \<and> (Store env key fileName be = (Ok (), be2, tr2) \<and> UploadHashedFileC n h l \<in> set tr2 \<and>
          zeroTime + Second * 15 < now_since env3 \<longrightarrow>
          snd (snd (CheckPresent env3 key be2)) = [ListFileNamesC (prefix be @ key) 1])
     \<and> (Remove env key be = (Ok (), be3, tr3) \<and> DeleteFileVersionC n' i \<in> set tr3 \<and>
          zeroTime + Second * 15 < now_since env4 \<longrightarrow>
          snd (snd (CheckPresent env4 key be3)) = [ListFileNamesC (prefix be @ key) 1])"
proof (intro conjI impI)
  assume "file' (lastList be) = name \<and> time_Since env (setAt (lastList be)) \<le> Second * 15"
  then show "listFileCached env name be = (Ok (found (lastList be), id' (lastList be)), be, [])"
    by (simp add: listFileCached_hit)
next
  assume "\<not> (file' (lastList be) = name \<and> time_Since env (setAt (lastList be)) \<le> Second * 15)"
  then have miss: "file' (lastList be) \<noteq> name \<or> Second * 15 < time_Since env (setAt (lastList be))"
    by auto
  show "snd (snd (listFileCached env name be)) = [ListFileNamesC name 1]"
    by (rule listFileCached_miss_calls [OF miss assms])
  {
    assume "ListFileNames env b name 1 = Inr files"
    from listFileCached_miss_ok [OF miss assms this refl]
    show "lastList (fst (snd (listFileCached env name be))) =
               \<lparr>setAt = now_set env, file' = name,
                found = (files \<noteq> [] \<and> Name (hd files) = name),
                id' = (if files \<noteq> [] \<and> Name (hd files) = name then ID (hd files) else [])\<rparr>"
      by simp
  }
  {
    assume "ListFileNames env b name 1 = Inl err"
    from listFileCached_miss_error [OF miss assms this]
    show "listFileCached env name be = (Failure err, be, [ListFileNamesC name 1])" .
  }
next
  assume "CheckPresent env key be = (Ok r, be1, tr1)"
    and "time_Since env2 (setAt (lastList be1)) \<le> Second * 15"
  then show "CheckPresent env2 key be1 = (Ok r, be1, [])"
    by (rule CheckPresent_again)
next
  assume "CheckPresent env key be = (Ok r, be1, tr1)" and "key2 \<noteq> key"
  from CheckPresent_other [OF this(1) assms this(2)]
  show "snd (snd (CheckPresent env2 key2 be1)) = [ListFileNamesC (prefix be @ key2) 1]" .
next
  assume a: "Store env key fileName be = (Ok (), be2, tr2) \<and> UploadHashedFileC n h l \<in> set tr2 \<and>
          zeroTime + Second * 15 < now_since env3"
  then have "lastList be2 = \<lparr>setAt = zeroTime, file' = [], found = False, id' = []\<rparr> \<and>
         bucket be2 \<noteq> None \<and> prefix be2 = prefix be"
    using Store_upload_clears by blast
  with a cleared_CheckPresent [of be2 env3 key]
  show "snd (snd (CheckPresent env3 key be2)) = [ListFileNamesC (prefix be @ key) 1]"
    by simp
next
  assume a: "Remove env key be = (Ok (), be3, tr3) \<and> DeleteFileVersionC n' i \<in> set tr3 \<and>
          zeroTime + Second * 15 < now_since env4"
  then have "lastList be3 = \<lparr>setAt = zeroTime, file' = [], found = False, id' = []\<rparr> \<and>
         bucket be3 \<noteq> None \<and> prefix be3 = prefix be"
    using Remove_delete_clears by blast
  with a cleared_CheckPresent [of be3 env4 key]
  show "snd (snd (CheckPresent env4 key be3)) = [ListFileNamesC (prefix be @ key) 1]"
    by simp
qed


theorem existence_cache_reuse_witness:
  "listFileCached env_ok ''raw/k'' be_cached = (Ok (True, ''v1''), be_cached, []) \<and>
   snd (snd (listFileCached env_ok ''raw/k'' be_ready)) = [ListFileNamesC ''raw/k'' 1] \<and>
   lastList (fst (snd (listFileCached env_ok ''raw/k'' be_ready))) =
     \<lparr>setAt = 1001 * Second, file' = ''raw/k'', found = True, id' = ''v1''\<rparr> \<and>
   CheckPresent env_ok ''k'' (fst (snd (CheckPresent env_ok ''k'' be_ready))) =
     (Ok True, fst (snd (CheckPresent env_ok ''k'' be_ready)), []) \<and>
   snd (snd (CheckPresent env_ok ''j'' (fst (snd (CheckPresent env_ok ''k'' be_ready))))) =
     [ListFileNamesC ''raw/j'' 1] \<and>
   snd (snd (CheckPresent env_ok ''k'' (fst (snd (Store env_differs ''k'' ''f'' be_ready))))) =
     [ListFileNamesC ''raw/k'' 1] \<and>
   snd (snd (CheckPresent env_ok ''k'' (fst (snd (Remove env_ok ''k'' be_ready))))) =
     [ListFileNamesC ''raw/k'' 1]"
proof -
  define be1 where "be1 = be_ready\<lparr>lastList :=
      \<lparr>setAt = 1001 * Second, file' = ''raw/k'', found = True, id' = ''v1''\<rparr>\<rparr>"
  have bound: "bucket be_cached = Some (Bucket ''annex'')" "bucket be_ready = Some (Bucket ''annex'')"
    and pfx: "prefix be_ready = ''raw/''"
    by (simp_all add: fixture_defs)
  have hit: "file' (lastList be_cached) = ''raw/k'' \<and>
      time_Since env_ok (setAt (lastList be_cached)) \<le> Second * 15"
    by (simp add: fixture_defs time_defs)
  have miss: "\<not> (file' (lastList be_ready) = ''raw/k'' \<and>
      time_Since env_ok (setAt (lastList be_ready)) \<le> Second * 15)"
    by (simp add: fixture_defs)
  have slot: "found (lastList be_cached) = True" "id' (lastList be_cached) = ''v1''"
    by (simp_all add: fixture_defs)
  have listing: "ListFileNames env_ok (Bucket ''annex'') ''raw/k'' 1 = Inr [file_k]"
    "Name (hd [file_k]) = ''raw/k''" "ID (hd [file_k]) = ''v1''"
    by (simp_all add: fixture_defs)
  have chk: "CheckPresent env_ok ''k'' be_ready = (Ok True, be1, [ListFileNamesC ''raw/k'' 1])"
    by (simp add: CheckPresent_def listFileCached_def be1_def fixture_defs time_defs)
  have fresh: "time_Since env_ok (setAt (lastList be1)) \<le> Second * 15"
    by (simp add: be1_def fixture_defs time_defs)
  have sto: "Store env_differs ''k'' ''f'' be_ready =
      (Ok (), clearListFileCache be_ready,
       [ListFileNamesC ''raw/k'' 1, GetFileInfoC ''v1'', DeleteFileVersionC ''raw/k'' ''v1'',
        UploadHashedFileC ''raw/k'' ''abcd'' 3])"
    by (simp add: Store_defs fixture_defs time_defs hex_examples
        del: hex_DecodeString.simps hex_EncodeToString.simps)
  have rem: "Remove env_ok ''k'' be_ready =
      (Ok (), clearListFileCache be_ready,
       [ListFileNamesC ''raw/k'' 1, DeleteFileVersionC ''raw/k'' ''v1''])"
    by (simp add: Remove_defs fixture_defs time_defs)
  have clock: "zeroTime + Second * 15 < now_since env_ok"
    by (simp add: fixture_defs time_defs)
  note a = existence_cache_reuse [OF bound(1), where env = env_ok and name = "''raw/k''"]
  note b = existence_cache_reuse [OF bound(2), where env = env_ok and name = "''raw/k''"
      and files = "[file_k]" and key = "''k''" and r = True and ?be1.0 = be1
      and ?tr1.0 = "[ListFileNamesC ''raw/k'' 1]" and ?env2.0 = env_ok and ?key2.0 = "''j''"]
  note c = existence_cache_reuse [OF bound(2), where env = env_differs and key = "''k''"
      and fileName = "''f''" and ?be2.0 = "clearListFileCache be_ready"
      and ?tr2.0 = "[ListFileNamesC ''raw/k'' 1, GetFileInfoC ''v1'',
        DeleteFileVersionC ''raw/k'' ''v1'', UploadHashedFileC ''raw/k'' ''abcd'' 3]"
      and n = "''raw/k''" and h = "''abcd''" and l = 3 and ?env3.0 = env_ok]
  note d = existence_cache_reuse [OF bound(2), where env = env_ok and key = "''k''"
      and ?be3.0 = "clearListFileCache be_ready"
      and ?tr3.0 = "[ListFileNamesC ''raw/k'' 1, DeleteFileVersionC ''raw/k'' ''v1'']"
      and n' = "''raw/k''" and i = "''v1''" and ?env4.0 = env_ok]
  from a hit slot have 1: "listFileCached env_ok ''raw/k'' be_cached = (Ok (True, ''v1''), be_cached, [])"
    by simp
  from b miss listing have 2: "snd (snd (listFileCached env_ok ''raw/k'' be_ready)) = [ListFileNamesC ''raw/k'' 1]"
    and 3: "lastList (fst (snd (listFileCached env_ok ''raw/k'' be_ready))) =
     \<lparr>setAt = now_set env_ok, file' = ''raw/k'', found = True, id' = ''v1''\<rparr>"
    by simp_all
  from b chk fresh have 4: "CheckPresent env_ok ''k'' be1 = (Ok True, be1, [])"
    and 5: "snd (snd (CheckPresent env_ok ''j'' be1)) = [ListFileNamesC ''raw/j'' 1]"
    by (simp_all add: pfx)
  from c sto clock have 6: "snd (snd (CheckPresent env_ok ''k'' (clearListFileCache be_ready))) =
     [ListFileNamesC ''raw/k'' 1]"
    by (simp add: pfx)
  from d rem clock have 7: "snd (snd (CheckPresent env_ok ''k'' (clearListFileCache be_ready))) =
     [ListFileNamesC ''raw/k'' 1]"
    by (simp add: pfx)
  have now: "now_set env_ok = 1001 * Second"
    by (simp add: fixture_defs)
  from 1 2 3 4 5 6 7 show ?thesis
    by (simp add: chk sto rem now)
qed

section \<open>Store and the stored hash\<close>

text \<open>
  Against claim C1 as stated: the local file opens and is hashed, the object \<open>raw/k\<close>
  exists with a stored hash other than the local one, and the object store refuses
  the delete. \<open>Store\<close> calls delete and returns the failure; it never calls upload.
\<close>

theorem Store_delete_then_upload_counterexample:
  "os_Open env_delete_fails ''f'' =
     Inr \<lparr>contents = [1, 2, 3], readError = None, seekError = None\<rparr> \<and>
   hashFile env_delete_fails \<lparr>contents = [1, 2, 3], readError = None, seekError = None\<rparr> =
     ([0xAB, 0xCD], 3, None) \<and>
   listFileCached env_delete_fails ''raw/k'' be_ready =
     (Ok (True, ''v1''), fst (snd (listFileCached env_delete_fails ''raw/k'' be_ready)),
      [ListFileNamesC ''raw/k'' 1]) \<and>
   GetFileInfo env_delete_fails (Bucket ''annex'') ''v1'' =
     Inr (Some \<lparr>ID = ''v1'', Name = ''raw/k'', ContentSha1 = ''0000''\<rparr>) \<and>
   hex_DecodeString ''0000'' = Some [0, 0] \<and>
   fst (Store env_delete_fails ''k'' ''f'' be_ready) =
     Failure (Errorf ''couldn't delete old file version: '' (Error ''delete refused'')) \<and>
   snd (snd (Store env_delete_fails ''k'' ''f'' be_ready)) =
     [ListFileNamesC ''raw/k'' 1, GetFileInfoC ''v1'', DeleteFileVersionC ''raw/k'' ''v1'']"
  by (simp add: Store_defs fixture_defs time_defs hex_examples
      del: hex_DecodeString.simps hex_EncodeToString.simps)

text \<open>
  Claim C1, amended. The local file opens and is hashed without error, a bucket is
  bound, and the existence lookup answers (\<open>fnd\<close>, \<open>fileID\<close>) after the calls \<open>tr1\<close>,
  which are no call or the one listing. If the object is reported present and its
  stored hash decodes to the local hash, \<open>Store\<close> succeeds and calls neither delete nor
  upload. If it is reported present with another stored hash, \<open>Store\<close> calls delete on
  the version \<open>GetFileInfo\<close> named; when the delete succeeds the next call is the
  upload, when it fails \<open>Store\<close> returns that failure and does not upload. If the
  object is reported absent, \<open>Store\<close> calls upload and no delete.
\<close>

theorem Store_dedup:
  assumes opened: "os_Open env fileName = Inr fh"
    and hashed: "readError fh = None \<and> seekError fh = None"
    and bound: "bucket be = Some b"
    and looked: "listFileCached env (prefix be @ key) be = (Ok (fnd, fileID), be1, tr1)"
  shows
    "(fnd \<and> GetFileInfo env b fileID = Inr (Some f) \<and>
        hex_DecodeString (ContentSha1 f) = Some (sha1_Sum env (contents fh)) \<longrightarrow>
        Store env key fileName be = (Ok (), be1, tr1 @ [GetFileInfoC fileID]))
     \<and> (fnd \<and> GetFileInfo env b fileID = Inr (Some f) \<and>
        hex_DecodeString (ContentSha1 f) \<noteq> Some (sha1_Sum env (contents fh)) \<longrightarrow>
        (DeleteFileVersion env b (prefix be @ key) (ID f) = None \<longrightarrow>
           snd (snd (Store env key fileName be)) =
             tr1 @ [GetFileInfoC fileID, DeleteFileVersionC (prefix be @ key) (ID f),
                    UploadHashedFileC (prefix be @ key)
                      (hex_EncodeToString (sha1_Sum env (contents fh)))
                      (int (length (contents fh)))])
        \<and> (DeleteFileVersion env b (prefix be @ key) (ID f) = Some e \<longrightarrow>
           Store env key fileName be =
             (Failure (Errorf ''couldn't delete old file version: '' e), be1,
              tr1 @ [GetFileInfoC fileID, DeleteFileVersionC (prefix be @ key) (ID f)])))
     \<and> (\<not> fnd \<longrightarrow>
        snd (snd (Store env key fileName be)) =
          tr1 @ [UploadHashedFileC (prefix be @ key)
                   (hex_EncodeToString (sha1_Sum env (contents fh)))
                   (int (length (contents fh)))])
     \<and> (tr1 = [] \<or> tr1 = [ListFileNamesC (prefix be @ key) 1])"
proof -
  have keep: "prefix be1 = prefix be" "bucket be1 = Some b"
    using listFileCached_keeps [OF looked] bound by simp_all
  have hf: "hashFile env fh =
      (sha1_Sum env (contents fh), int (length (contents fh)), None)"
    using hashed by (simp add: hashFile_def)
  have up: "snd (snd (Store_upload env key fileName (sha1_Sum env (contents fh))
        (int (length (contents fh))) None be1)) =
      [UploadHashedFileC (prefix be @ key) (hex_EncodeToString (sha1_Sum env (contents fh)))
         (int (length (contents fh)))]"
    using keep by (simp add: Store_upload_def Let_def split: option.splits)
  have same: "fnd \<and> GetFileInfo env b fileID = Inr (Some f) \<and>
        hex_DecodeString (ContentSha1 f) = Some (sha1_Sum env (contents fh)) \<Longrightarrow>
        Store env key fileName be = (Ok (), be1, tr1 @ [GetFileInfoC fileID])"
    using opened hf looked keep by (simp add: Store_def Store_found_def)
  have differ_ok: "fnd \<and> GetFileInfo env b fileID = Inr (Some f) \<and>
        hex_DecodeString (ContentSha1 f) \<noteq> Some (sha1_Sum env (contents fh)) \<Longrightarrow>
        DeleteFileVersion env b (prefix be @ key) (ID f) = None \<Longrightarrow>
        snd (snd (Store env key fileName be)) =
             tr1 @ [GetFileInfoC fileID, DeleteFileVersionC (prefix be @ key) (ID f),
                    UploadHashedFileC (prefix be @ key)
                      (hex_EncodeToString (sha1_Sum env (contents fh)))
                      (int (length (contents fh)))]"
    using opened hf looked keep up
    by (auto simp: Store_def Store_found_def split: option.splits prod.splits)
  have differ_fail: "fnd \<and> GetFileInfo env b fileID = Inr (Some f) \<and>
        hex_DecodeString (ContentSha1 f) \<noteq> Some (sha1_Sum env (contents fh)) \<Longrightarrow>
        DeleteFileVersion env b (prefix be @ key) (ID f) = Some e \<Longrightarrow>
        Store env key fileName be =
             (Failure (Errorf ''couldn't delete old file version: '' e), be1,
              tr1 @ [GetFileInfoC fileID, DeleteFileVersionC (prefix be @ key) (ID f)])"
    using opened hf looked keep
    by (auto simp: Store_def Store_found_def split: option.splits)
  have absent: "\<not> fnd \<Longrightarrow> snd (snd (Store env key fileName be)) =
          tr1 @ [UploadHashedFileC (prefix be @ key)
                   (hex_EncodeToString (sha1_Sum env (contents fh)))
                   (int (length (contents fh)))]"
    using opened hf looked keep up
    by (auto simp: Store_def split: prod.splits)
  from same differ_ok differ_fail absent listFileCached_calls [OF looked] show ?thesis
    by blast
qed


theorem Store_dedup_witness:
  "fst (Store env_ok ''k'' ''f'' be_ready) = Ok () \<and>
   snd (snd (Store env_ok ''k'' ''f'' be_ready)) = [ListFileNamesC ''raw/k'' 1, GetFileInfoC ''v1''] \<and>
   snd (snd (Store env_differs ''k'' ''f'' be_ready)) =
     [ListFileNamesC ''raw/k'' 1, GetFileInfoC ''v1'', DeleteFileVersionC ''raw/k'' ''v1'',
      UploadHashedFileC ''raw/k'' ''abcd'' 3] \<and>
   fst (Store env_delete_fails ''k'' ''f'' be_ready) =
     Failure (Errorf ''couldn't delete old file version: '' (Error ''delete refused'')) \<and>
   snd (snd (Store env_empty ''k'' ''f'' be_ready)) =
     [ListFileNamesC ''raw/k'' 1, UploadHashedFileC ''raw/k'' ''abcd'' 3]"
proof -
  define fh :: OSFile where "fh = \<lparr>contents = [1, 2, 3], readError = None, seekError = None\<rparr>"
  define be1 where "be1 = be_ready\<lparr>lastList :=
      \<lparr>setAt = 1001 * Second, file' = ''raw/k'', found = True, id' = ''v1''\<rparr>\<rparr>"
  define be0 where "be0 = be_ready\<lparr>lastList :=
      \<lparr>setAt = 1001 * Second, file' = ''raw/k'', found = False, id' = []\<rparr>\<rparr>"
  have opened: "os_Open env_ok ''f'' = Inr fh" "os_Open env_differs ''f'' = Inr fh"
    "os_Open env_delete_fails ''f'' = Inr fh" "os_Open env_empty ''f'' = Inr fh"
    by (simp_all add: fh_def fixture_defs)
  have hashed: "readError fh = None \<and> seekError fh = None"
    by (simp add: fh_def)
  have bound: "bucket be_ready = Some (Bucket ''annex'')" and pfx: "prefix be_ready = ''raw/''"
    by (simp_all add: be_ready_def)
  have looked:
    "listFileCached env_ok (prefix be_ready @ ''k'') be_ready =
       (Ok (True, ''v1''), be1, [ListFileNamesC ''raw/k'' 1])"
    "listFileCached env_differs (prefix be_ready @ ''k'') be_ready =
       (Ok (True, ''v1''), be1, [ListFileNamesC ''raw/k'' 1])"
    "listFileCached env_delete_fails (prefix be_ready @ ''k'') be_ready =
       (Ok (True, ''v1''), be1, [ListFileNamesC ''raw/k'' 1])"
    "listFileCached env_empty (prefix be_ready @ ''k'') be_ready =
       (Ok (False, []), be0, [ListFileNamesC ''raw/k'' 1])"
    by (simp_all add: listFileCached_def be1_def be0_def fixture_defs time_defs)
  have info:
    "GetFileInfo env_ok (Bucket ''annex'') ''v1'' = Inr (Some file_k)"
    "GetFileInfo env_differs (Bucket ''annex'') ''v1'' =
       Inr (Some (file_k\<lparr>ContentSha1 := ''0000''\<rparr>))"
    "GetFileInfo env_delete_fails (Bucket ''annex'') ''v1'' =
       Inr (Some (file_k\<lparr>ContentSha1 := ''0000''\<rparr>))"
    by (simp_all add: fixture_defs)
  have sha: "sha1_Sum env_ok (contents fh) = [0xAB, 0xCD]"
    "sha1_Sum env_differs (contents fh) = [0xAB, 0xCD]"
    "sha1_Sum env_delete_fails (contents fh) = [0xAB, 0xCD]"
    "sha1_Sum env_empty (contents fh) = [0xAB, 0xCD]"
    "int (length (contents fh)) = 3"
    by (simp_all add: fh_def fixture_defs)
  have stored: "ContentSha1 file_k = ''abcd''" "ID file_k = ''v1''"
    "ContentSha1 (file_k\<lparr>ContentSha1 := ''0000''\<rparr>) = ''0000''"
    "ID (file_k\<lparr>ContentSha1 := ''0000''\<rparr>) = ''v1''"
    by (simp_all add: file_k_def)
  have del: "DeleteFileVersion env_differs (Bucket ''annex'') (prefix be_ready @ ''k'') ''v1'' = None"
    "DeleteFileVersion env_delete_fails (Bucket ''annex'') (prefix be_ready @ ''k'') ''v1'' =
       Some (Error ''delete refused'')"
    by (simp_all add: fixture_defs)
  note a = Store_dedup [OF opened(1) hashed bound looked(1), where f = file_k]
  note b = Store_dedup [OF opened(2) hashed bound looked(2),
      where f = "file_k\<lparr>ContentSha1 := ''0000''\<rparr>"]
  note c = Store_dedup [OF opened(3) hashed bound looked(3),
      where f = "file_k\<lparr>ContentSha1 := ''0000''\<rparr>" and e = "Error ''delete refused''"]
  note d = Store_dedup [OF opened(4) hashed bound looked(4)]
  from a info(1) have 1: "Store env_ok ''k'' ''f'' be_ready =
      (Ok (), be1, [ListFileNamesC ''raw/k'' 1, GetFileInfoC ''v1''])"
    by (simp add: sha stored hex_examples del: hex_DecodeString.simps)
  from b info(2) del(1) have 2: "snd (snd (Store env_differs ''k'' ''f'' be_ready)) =
     [ListFileNamesC ''raw/k'' 1, GetFileInfoC ''v1'', DeleteFileVersionC ''raw/k'' ''v1'',
      UploadHashedFileC ''raw/k'' ''abcd'' 3]"
    by (simp add: sha stored hex_examples pfx
        del: hex_DecodeString.simps hex_EncodeToString.simps)
  from c info(3) del(2) have 3: "Store env_delete_fails ''k'' ''f'' be_ready =
     (Failure (Errorf ''couldn't delete old file version: '' (Error ''delete refused'')), be1,
      [ListFileNamesC ''raw/k'' 1, GetFileInfoC ''v1'', DeleteFileVersionC ''raw/k'' ''v1''])"
    by (simp add: sha stored hex_examples pfx
        del: hex_DecodeString.simps hex_EncodeToString.simps)
  from d have 4: "snd (snd (Store env_empty ''k'' ''f'' be_ready)) =
     [ListFileNamesC ''raw/k'' 1, UploadHashedFileC ''raw/k'' ''abcd'' 3]"
    by (simp add: sha hex_examples pfx del: hex_EncodeToString.simps)
  from 1 2 3 4 show ?thesis by simp
qed

text \<open>
  Against the code, for claim C2: reading the local file fails, so the hashing task
  leaves \<open>haveSHA\<close> nil and sets \<open>shaError\<close>; the object store reports the object
  with an empty stored hash, which decodes to the empty byte string. \<open>Store\<close>
  compares the two before it looks at \<open>shaError\<close>, finds them equal, and returns
  success without an upload.
\<close>

theorem Store_skips_upload_after_failed_hash:
  "os_Open env_hash_fails ''f'' =
     Inr \<lparr>contents = [1, 2, 3], readError = Some (Error ''input/output error''),
          seekError = None\<rparr> \<and>
   hashFile env_hash_fails
     \<lparr>contents = [1, 2, 3], readError = Some (Error ''input/output error''), seekError = None\<rparr> =
     ([], 3, Some (Error ''input/output error'')) \<and>
   GetFileInfo env_hash_fails (Bucket ''annex'') ''v1'' =
     Inr (Some \<lparr>ID = ''v1'', Name = ''raw/k'', ContentSha1 = []\<rparr>) \<and>
   fst (Store env_hash_fails ''k'' ''f'' be_ready) = Ok () \<and>
   snd (snd (Store env_hash_fails ''k'' ''f'' be_ready)) =
     [ListFileNamesC ''raw/k'' 1, GetFileInfoC ''v1'']"
  by (simp add: Store_defs fixture_defs time_defs)


text \<open>
  What the code does guarantee: a \<open>Store\<close> that succeeds without an upload has found
  the object by the lookup, has read its stored hash, and that hash decodes to
  \<open>haveSHA\<close>, the first result of the hashing task (nil when the task failed).
\<close>

lemma Store_upload_Ok:
  "Store_upload env key fileName sha len serr be = (Ok (), be2, tr) \<Longrightarrow>
   tr = [UploadHashedFileC (prefix be @ key) (hex_EncodeToString sha) len]"
  by (auto simp: Store_upload_def Let_def split: option.splits)

lemma Store_skip_only_on_equal_hash:
  assumes "Store env key fileName be = (Ok (), be1, tr)"
    and "\<forall>n h l. UploadHashedFileC n h l \<notin> set tr"
  shows "\<exists>fh fileID tr1 b f.
           os_Open env fileName = Inr fh \<and>
           listFileCached env (prefix be @ key) be = (Ok (True, fileID), be1, tr1) \<and>
           bucket be = Some b \<and>
           GetFileInfo env b fileID = Inr (Some f) \<and>
           hex_DecodeString (ContentSha1 f) = Some (fst (hashFile env fh))"
proof -
  from assms(1) obtain fh where op: "os_Open env fileName = Inr fh"
    by (auto simp: Store_def split: sum.splits)
  obtain sha len serr where hf: "hashFile env fh = (sha, len, serr)"
    by (cases "hashFile env fh") auto
  obtain r0 be0 tr0 where lf: "listFileCached env (prefix be @ key) be = (r0, be0, tr0)"
    by (cases "listFileCached env (prefix be @ key) be") auto
  have keep: "bucket be0 = bucket be"
    using listFileCached_keeps [OF lf] by simp
  from assms(1) op hf lf obtain fnd fileID where r0: "r0 = Ok (fnd, fileID)"
    by (cases r0) (auto simp: Store_def)
  obtain fl tr2 where sf:
    "(if fnd then Store_found env key fileID sha be0 else (Proceed, [])) = (fl, tr2)"
    by (cases "if fnd then Store_found env key fileID sha be0 else (Proceed, [])") auto
  have ret: "fl = Return (Ok ())" "be1 = be0"
  proof -
    show "fl = Return (Ok ())"
    proof (cases fl)
      case (Return r)
      with assms(1) op hf lf r0 sf show ?thesis by (simp add: Store_def)
    next
      case Proceed
      obtain r3 be3 tr3 where su:
        "Store_upload env key fileName sha len serr be0 = (r3, be3, tr3)"
        by (cases "Store_upload env key fileName sha len serr be0") auto
      with assms(1) op hf lf r0 sf Proceed have "r3 = Ok ()" "tr = tr0 @ tr2 @ tr3"
        by (simp_all add: Store_def)
      with Store_upload_Ok su assms(2) show ?thesis by fastforce
    qed
    with assms(1) op hf lf r0 sf show "be1 = be0" by (simp add: Store_def)
  qed
  from sf ret(1) have fnd: fnd by (auto split: if_splits)
  with sf ret(1) obtain b f where
    "bucket be0 = Some b" "GetFileInfo env b fileID = Inr (Some f)"
    "hex_DecodeString (ContentSha1 f) = Some sha"
    by (auto simp: Store_found_def split: option.splits sum.splits if_splits)
  with op hf lf r0 fnd ret(2) keep show ?thesis by (auto intro: sym)
qed

section \<open>The unsupported requests\<close>

text \<open>
  Against claim C5 as stated: \<open>GetAvailability\<close> returns a value and a nil error, not
  the unsupported-request error.
\<close>

theorem GetAvailability_counterexample:
  "GetAvailability env_ok be_ready = (AvailabilityGlobal, None) \<and>
   snd (GetAvailability env_ok be_ready) \<noteq> Some ErrUnsupportedRequest"
  by (simp add: GetAvailability_def)

text \<open>
  Claim C5, amended. For every input, \<open>GetCost\<close> and \<open>WhereIs\<close> return the
  unsupported-request error, and \<open>GetAvailability\<close> returns \<open>AvailabilityGlobal\<close>
  with a nil error.
\<close>

theorem unsupported_requests:
  "GetCost env be = (0, Some ErrUnsupportedRequest) \<and>
   WhereIs env key be = ([], Some ErrUnsupportedRequest) \<and>
   GetAvailability env be = (AvailabilityGlobal, None)"
  by (simp add: GetCost_def WhereIs_def GetAvailability_def)

section \<open>Setup\<close>

lemmas setup_defs = setup'_def InitRemote_def Prepare_def authenticate_def getBucketConfig_def
  HasSuffix_def Let_def

lemma setup_bound:
  "bucket be \<noteq> None \<Longrightarrow> setup' env canCreateBucket be = (Ok (), be, [])"
  by (simp add: setup'_def)

lemma setup_Ok_bound:
  "setup' env canCreateBucket be = (Ok (), be1, tr) \<Longrightarrow> bucket be1 \<noteq> None"
  by (auto simp: setup'_def split: if_splits prod.splits sum.splits option.splits)

lemma setups_bound:
  "bucket be \<noteq> None \<Longrightarrow> setups calls be = (map (\<lambda>c. (Ok (), [])) calls, be)"
  by (induction calls) (auto simp: setup_bound)

text \<open>
  Claim C6. After a setup call that succeeded the bucket is bound, and from then on
  every sequence of \<open>InitRemote\<close> and \<open>Prepare\<close> requests, whatever the outside would
  answer, succeeds request by request with no call at all (no configuration query, no
  authentication, no bucket lookup or creation) and leaves the adapter as it is.
\<close>

theorem setup_idempotent:
  assumes "setup' env canCreateBucket be = (Ok (), be1, tr)"
  shows "bucket be1 \<noteq> None \<and>
         InitRemote env2 be1 = (Ok (), be1, []) \<and>
         Prepare env2 be1 = (Ok (), be1, []) \<and>
         setups calls be1 = (map (\<lambda>c. (Ok (), [])) calls, be1)"
  using setup_Ok_bound [OF assms]
  by (simp add: InitRemote_def Prepare_def setup_bound setups_bound)

theorem setup_idempotent_witness:
  "fst (InitRemote env_ok be_new) = Ok () \<and>
   bucket (fst (snd (InitRemote env_ok be_new))) = Some (Bucket ''annex'') \<and>
   Prepare env_no_bucket (fst (snd (InitRemote env_ok be_new))) =
     (Ok (), fst (snd (InitRemote env_ok be_new)), []) \<and>
   setups [(env_no_bucket, False), (env_prefix_error, True)] (fst (snd (InitRemote env_ok be_new))) =
     ([(Ok (), []), (Ok (), [])], fst (snd (InitRemote env_ok be_new)))"
proof -
  define be1 where "be1 = be_new\<lparr>bucket := Some (Bucket ''annex''), prefix := ''raw/''\<rparr>"
  have run: "setup' env_ok True be_new =
      (Ok (), be1,
       [GetConfigC ''accountid'', GetConfigC ''appkey'',
        NewB2C \<lparr>AccountID = ''acct'', ApplicationKey = ''key''\<rparr>,
        GetConfigC ''bucket'', GetConfigC ''prefix'', BucketC ''annex''])"
    by (simp add: setup_defs be1_def fixture_defs)
  have bkt: "bucket be1 = Some (Bucket ''annex'')"
    by (simp add: be1_def)
  from setup_idempotent [OF run, of env_no_bucket "[(env_no_bucket, False), (env_prefix_error, True)]"]
  show ?thesis
    by (simp add: InitRemote_def run bkt)
qed

text \<open>
  Claim C7. The adapter is not configured yet, authentication and the resolution of
  the bucket name and prefix succeed, and the bucket lookup answers that there is no
  such bucket. \<open>Prepare\<close> fails with the error "bucket ... does not exist anymore"
  (the dots are the bucket name as \<^verbatim>\<open>%#v\<close> prints it, whatever that text is) and
  leaves the adapter as it was, unconfigured. \<open>InitRemote\<close> asks for the creation of
  the bucket with the type \<open>AllPrivate\<close>, and succeeds, binding the created bucket and
  the prefix, when the creation succeeds; when the creation fails it fails too.
\<close>

theorem setup_missing_bucket:
  assumes "bucket be = None"
    and "authenticate env = (Inr b2, tr1)"
    and "getBucketConfig env = (Inr (bucketName, pfx), tr2)"
    and "OpenBucket env b2 bucketName = Inr None"
  shows "Prepare env be =
           (Failure (Error (''bucket '' @ gosyntax env bucketName @ '' does not exist anymore'')),
            be, tr1 @ tr2 @ [BucketC bucketName])
         \<and> snd (snd (InitRemote env be)) =
             tr1 @ tr2 @ [BucketC bucketName, CreateBucketC bucketName AllPrivate]
         \<and> (CreateBucket env b2 bucketName AllPrivate = Inr bkt \<longrightarrow>
              InitRemote env be =
                (Ok (), be\<lparr>bucket := Some bkt, prefix := pfx\<rparr>,
                 tr1 @ tr2 @ [BucketC bucketName, CreateBucketC bucketName AllPrivate]))
         \<and> (CreateBucket env b2 bucketName AllPrivate = Inl err \<longrightarrow>
              InitRemote env be =
                (Failure (Errorf (''couldn't create bucket '' @ gosyntax env bucketName @ '': '') err),
                 be,
                 tr1 @ tr2 @ [BucketC bucketName, CreateBucketC bucketName AllPrivate]))"
  using assms
  by (cases "CreateBucket env b2 bucketName AllPrivate")
     (simp_all add: Prepare_def InitRemote_def setup'_def)

theorem setup_missing_bucket_witness:
  "Prepare env_no_bucket be_new =
     (Failure (Error (''bucket '' @ [CHR 0x22] @ ''annex'' @ [CHR 0x22] @ '' does not exist anymore'')),
      be_new,
      [GetConfigC ''accountid'', GetConfigC ''appkey'',
       NewB2C \<lparr>AccountID = ''acct'', ApplicationKey = ''key''\<rparr>,
       GetConfigC ''bucket'', GetConfigC ''prefix'', BucketC ''annex'']) \<and>
   InitRemote env_no_bucket be_new =
     (Ok (), be_new\<lparr>bucket := Some (Bucket ''annex''), prefix := ''raw/''\<rparr>,
      [GetConfigC ''accountid'', GetConfigC ''appkey'',
       NewB2C \<lparr>AccountID = ''acct'', ApplicationKey = ''key''\<rparr>,
       GetConfigC ''bucket'', GetConfigC ''prefix'', BucketC ''annex'',
       CreateBucketC ''annex'' AllPrivate])"
proof -
  define creds where "creds = \<lparr>AccountID = ''acct'', ApplicationKey = ''key''\<rparr>"
  have unbound: "bucket be_new = None"
    by (simp add: be_new_def)
  have auth: "authenticate env_no_bucket =
      (Inr (B2 creds), [GetConfigC ''accountid'', GetConfigC ''appkey'', NewB2C creds])"
    by (simp add: authenticate_def Let_def creds_def fixture_defs)
  have conf: "getBucketConfig env_no_bucket =
      (Inr (''annex'', ''raw/''), [GetConfigC ''bucket'', GetConfigC ''prefix''])"
    by (simp add: getBucketConfig_def Let_def HasSuffix_def fixture_defs)
  have nobkt: "OpenBucket env_no_bucket (B2 creds) ''annex'' = Inr None"
    by (simp add: fixture_defs)
  have create: "CreateBucket env_no_bucket (B2 creds) ''annex'' AllPrivate = Inr (Bucket ''annex'')"
    by (simp add: fixture_defs)
  from setup_missing_bucket [OF unbound auth conf nobkt, of "Bucket ''annex''"] create
  show ?thesis
    by (simp add: creds_def env_no_bucket_def env_ok_def)
qed

text \<open>
  Of the four configuration queries, the errors of the first three are returned by
  setup as they are.
\<close>

lemma setup_query_errors_reported:
  assumes "bucket be = None"
  shows "snd (GetConfig env ''accountid'') = Some err \<Longrightarrow>
           setup' env canCreateBucket be = (Failure err, be, [GetConfigC ''accountid''])"
    and "authenticate env = (Inr b2, tr1) \<Longrightarrow> snd (GetConfig env ''bucket'') = Some err \<Longrightarrow>
           setup' env canCreateBucket be = (Failure err, be, tr1 @ [GetConfigC ''bucket''])"
  using assms
  by (auto simp: setup'_def authenticate_def getBucketConfig_def Let_def split: prod.splits)

lemma authenticate_appkey_error:
  "GetConfig env ''accountid'' = (a, None) \<Longrightarrow> a \<noteq> [] \<Longrightarrow>
   snd (GetConfig env ''appkey'') = Some err \<Longrightarrow>
   authenticate env = (Inl err, [GetConfigC ''accountid'', GetConfigC ''appkey''])"
  by (auto simp: authenticate_def Let_def split: prod.splits)

text \<open>
  Against the code, for claim C8: the query for \<open>prefix\<close> fails and the other three
  succeed. \<open>getBucketConfig\<close> assigns the error and returns nil in its place, so both
  setup requests succeed with an empty prefix and the error is reported nowhere.
\<close>

theorem prefix_query_error_discarded:
  "GetConfig env_prefix_error ''prefix'' = ([], Some (Error ''control channel closed'')) \<and>
   getBucketConfig env_prefix_error =
     (Inr (''annex'', []), [GetConfigC ''bucket'', GetConfigC ''prefix'']) \<and>
   InitRemote env_prefix_error be_new =
     (Ok (), be_new\<lparr>bucket := Some (Bucket ''annex''), prefix := []\<rparr>,
      [GetConfigC ''accountid'', GetConfigC ''appkey'',
       NewB2C \<lparr>AccountID = ''acct'', ApplicationKey = ''key''\<rparr>,
       GetConfigC ''bucket'', GetConfigC ''prefix'', BucketC ''annex'']) \<and>
   fst (Prepare env_prefix_error be_new) = Ok ()"
  by (simp add: setup_defs fixture_defs)

section \<open>The progress reader\<close>

lemma wrap64_id: "- (2 ^ 63) \<le> x \<Longrightarrow> x < 2 ^ 63 \<Longrightarrow> wrap64 x = x"
  by (simp add: wrap64_def)

lemma Read_no_overflow:
  assumes "0 \<le> pr_lastPrint p" and "pr_lastPrint p \<le> pr_n p"
    and "pr_n p + int (length bs) < 2 ^ 63"
  shows "Read p (bs, err) =
           ((bs, err),
            \<lparr>pr_n = pr_n p + int (length bs),
             pr_lastPrint = (if pr_n p + int (length bs) - pr_lastPrint p > 256 * 1024
                             then pr_n p + int (length bs) else pr_lastPrint p)\<rparr>,
            if pr_n p + int (length bs) - pr_lastPrint p > 256 * 1024
            then [PROGRESS (pr_n p + int (length bs))] else [])"
proof -
  have a: "wrap64 (pr_n p + int (length bs)) = pr_n p + int (length bs)"
    using assms by (intro wrap64_id) auto
  have b: "wrap64 (pr_n p + int (length bs) - pr_lastPrint p) =
      pr_n p + int (length bs) - pr_lastPrint p"
    using assms by (intro wrap64_id) auto
  from a b show ?thesis
    by (cases p) (simp add: Read_def Let_def progressByteLimit_def)
qed

lemma transfer_reported:
  assumes "0 \<le> pr_lastPrint p" and "pr_lastPrint p \<le> pr_n p"
    and "pr_n p + (\<Sum>a\<leftarrow>answers. int (length (fst a))) < 2 ^ 63"
  shows "fst (snd (transfer p answers)) = answers \<and>
         snd (snd (transfer p answers)) =
           map PROGRESS (reported (pr_n p) (pr_lastPrint p) (map (\<lambda>a. length (fst a)) answers)) \<and>
         pr_n (fst (transfer p answers)) = pr_n p + (\<Sum>a\<leftarrow>answers. int (length (fst a)))"
  using assms
proof (induction answers arbitrary: p)
  case Nil
  then show ?case by simp
next
  case (Cons a answers)
  obtain bs err where a: "a = (bs, err)" by (cases a)
  define n1 where "n1 = pr_n p + int (length bs)"
  define p1 where "p1 = \<lparr>pr_n = n1,
             pr_lastPrint = (if n1 - pr_lastPrint p > 256 * 1024 then n1 else pr_lastPrint p)\<rparr>"
  have nonneg: "0 \<le> (\<Sum>a\<leftarrow>answers. int (length (fst a)))"
    by (rule sum_list_nonneg) auto
  have rd: "Read p (bs, err) =
      ((bs, err), p1, if n1 - pr_lastPrint p > 256 * 1024 then [PROGRESS n1] else [])"
    unfolding p1_def n1_def using Cons.prems nonneg a by (intro Read_no_overflow) auto
  have ih: "fst (snd (transfer p1 answers)) = answers \<and>
         snd (snd (transfer p1 answers)) =
           map PROGRESS (reported (pr_n p1) (pr_lastPrint p1) (map (\<lambda>a. length (fst a)) answers)) \<and>
         pr_n (fst (transfer p1 answers)) = pr_n p1 + (\<Sum>a\<leftarrow>answers. int (length (fst a)))"
    using Cons.prems a by (intro Cons.IH) (auto simp: p1_def n1_def)
  obtain p2 rs out2 where t: "transfer p1 answers = (p2, rs, out2)"
    by (cases "transfer p1 answers") auto
  have step: "transfer p (a # answers) =
      (p2, (bs, err) # rs, (if n1 - pr_lastPrint p > 256 * 1024 then [PROGRESS n1] else []) @ out2)"
    by (simp add: a rd t)
  have p1: "pr_n p1 = n1"
    "pr_lastPrint p1 = (if n1 - pr_lastPrint p > 256 * 1024 then n1 else pr_lastPrint p)"
    by (simp_all add: p1_def)
  from ih show ?case
    unfolding step t p1 by (simp add: a n1_def)
qed

lemma reported_bounds:
  "x \<in> set (reported tot base ks) \<Longrightarrow> tot \<le> x \<and> x \<le> tot + (\<Sum>k\<leftarrow>ks. int k)"
proof (induction ks arbitrary: tot base)
  case Nil
  then show ?case by simp
next
  case (Cons k ks)
  have nonneg: "0 \<le> (\<Sum>k\<leftarrow>ks. int k)"
    by (rule sum_list_nonneg) auto
  from Cons.prems consider "x = tot + int k"
    | "x \<in> set (reported (tot + int k) (tot + int k) ks)"
    | "x \<in> set (reported (tot + int k) base ks)"
    by (auto split: if_splits)
  then show ?case
  proof cases
    case 1
    with nonneg show ?thesis by simp
  next
    case 2
    from Cons.IH [OF this] show ?thesis by simp
  next
    case 3
    from Cons.IH [OF this] show ?thesis by simp
  qed
qed

lemma reported_sorted: "sorted (reported tot base ks)"
proof (induction ks arbitrary: tot base)
  case Nil
  then show ?case by simp
next
  case (Cons k ks)
  show ?case
    using Cons.IH reported_bounds [of _ "tot + int k" "tot + int k" ks]
    by auto
qed

lemma reported_exceeds:
  "base \<le> tot \<Longrightarrow> x \<in> set (reported tot base ks) \<Longrightarrow> base + 256 * 1024 < x"
proof (induction ks arbitrary: tot base)
  case Nil
  then show ?case by simp
next
  case (Cons k ks)
  from Cons.prems(2) consider "tot + int k - base > 256 * 1024" "x = tot + int k"
    | "tot + int k - base > 256 * 1024" "x \<in> set (reported (tot + int k) (tot + int k) ks)"
    | "x \<in> set (reported (tot + int k) base ks)"
    by (auto split: if_splits)
  then show ?case
  proof cases
    case 1
    then show ?thesis by simp
  next
    case 2
    from reported_bounds [OF 2(2)] 2(1) show ?thesis by simp
  next
    case 3
    with Cons.IH [of base "tot + int k" ] Cons.prems(1) show ?thesis by simp
  qed
qed


text \<open>
  Claim C9. A transfer starts from a new reader and delivers fewer than \<open>2^63\<close> bytes
  in all, so that the 64-bit counters do not wrap. Then: what the calls return is what
  the wrapped reader answered, bytes and errors unchanged; the lines written are exactly
  those of \<open>reported\<close>, that is, a line with the running total is written at the
  reads where the total exceeds the total of the last line written (zero at first) by
  more than 256 KiB, and that total becomes the new baseline; the totals written never
  decrease and none exceeds the number of bytes transferred. The last part states the
  same for one call of \<open>Read\<close> in any state whose counters do not wrap.
\<close>

theorem progress_reader:
  assumes "(\<Sum>a\<leftarrow>answers. int (length (fst a))) < 2 ^ 63"
  shows "fst (snd (transfer NewProgressReader answers)) = answers
         \<and> snd (snd (transfer NewProgressReader answers)) =
             map PROGRESS (reported 0 0 (map (\<lambda>a. length (fst a)) answers))
         \<and> sorted (map bytesSoFar (snd (snd (transfer NewProgressReader answers))))
         \<and> (\<forall>ln \<in> set (snd (snd (transfer NewProgressReader answers))).
               256 * 1024 < bytesSoFar ln \<and>
               bytesSoFar ln \<le> (\<Sum>a\<leftarrow>answers. int (length (fst a))))
         \<and> (0 \<le> pr_lastPrint p \<and> pr_lastPrint p \<le> pr_n p \<and>
             pr_n p + int (length bs) < 2 ^ 63 \<longrightarrow>
             Read p (bs, err) =
               ((bs, err),
                \<lparr>pr_n = pr_n p + int (length bs),
                 pr_lastPrint = (if pr_n p + int (length bs) - pr_lastPrint p > 256 * 1024
                                 then pr_n p + int (length bs) else pr_lastPrint p)\<rparr>,
                if pr_n p + int (length bs) - pr_lastPrint p > 256 * 1024
                then [PROGRESS (pr_n p + int (length bs))] else []))"
proof -
  let ?ks = "map (\<lambda>a. length (fst a)) answers"
  have sum: "(\<Sum>k\<leftarrow>?ks. int k) = (\<Sum>a\<leftarrow>answers. int (length (fst a)))"
    by (simp add: comp_def)
  have tr: "fst (snd (transfer NewProgressReader answers)) = answers"
    "snd (snd (transfer NewProgressReader answers)) = map PROGRESS (reported 0 0 ?ks)"
    using transfer_reported [of NewProgressReader answers] assms
    by (simp_all add: NewProgressReader_def)
  have tot: "map bytesSoFar (map PROGRESS (reported 0 0 ?ks)) = reported 0 0 ?ks"
    by (simp add: comp_def)
  have bounds: "\<forall>ln \<in> set (map PROGRESS (reported 0 0 ?ks)).
      256 * 1024 < bytesSoFar ln \<and> bytesSoFar ln \<le> (\<Sum>a\<leftarrow>answers. int (length (fst a)))"
    using reported_bounds [of _ 0 0 ?ks] reported_exceeds [of 0 0 _ ?ks] sum
    by auto
  show ?thesis
    unfolding tr tot using reported_sorted bounds Read_no_overflow by blast
qed

theorem progress_reader_witness:
  "transfer NewProgressReader
     [(replicate 262144 0, None), ([7], None), ([], Some (Error ''EOF''))] =
     (\<lparr>pr_n = 262145, pr_lastPrint = 262145\<rparr>,
      [(replicate 262144 0, None), ([7], None), ([], Some (Error ''EOF''))],
      [PROGRESS 262145]) \<and>
   Read NewProgressReader (replicate 262144 0, None) =
     ((replicate 262144 0, None), \<lparr>pr_n = 262144, pr_lastPrint = 0\<rparr>, [])"
proof -
  define answers :: "(byte list \<times> error option) list"
    where "answers = [(replicate 262144 0, None), ([7], None), ([], Some (Error ''EOF''))]"
  have small: "(\<Sum>a\<leftarrow>answers. int (length (fst a))) < 2 ^ 63"
    by (simp add: answers_def)
  have state: "0 \<le> pr_lastPrint NewProgressReader \<and>
      pr_lastPrint NewProgressReader \<le> pr_n NewProgressReader \<and>
      pr_n NewProgressReader + int (length (replicate 262144 (0 :: byte))) < 2 ^ 63"
    by (simp add: NewProgressReader_def)
  note t = progress_reader [OF small, of NewProgressReader "replicate 262144 0" None]
  from t have ret: "fst (snd (transfer NewProgressReader answers)) = answers"
    and out: "snd (snd (transfer NewProgressReader answers)) = [PROGRESS 262145]"
    by (simp_all add: answers_def)
  from t state have rd: "Read NewProgressReader (replicate 262144 0, None) =
     ((replicate 262144 0, None), \<lparr>pr_n = 262144, pr_lastPrint = 0\<rparr>, [])"
    by (simp add: NewProgressReader_def)
  have fin: "fst (transfer NewProgressReader answers) = \<lparr>pr_n = 262145, pr_lastPrint = 262145\<rparr>"
    by (simp add: answers_def Read_def NewProgressReader_def wrap64_def progressByteLimit_def)
  from ret out fin have "transfer NewProgressReader answers =
      (\<lparr>pr_n = 262145, pr_lastPrint = 262145\<rparr>, answers, [PROGRESS 262145])"
    by (cases "transfer NewProgressReader answers") simp
  with rd show ?thesis
    by (simp add: answers_def)
qed

end
